theory Spec2Isabelle
  imports Complex_Main
begin

section \<open>JavaScript values used by the audited code\<close>

subsection \<open>Strings and character classes\<close>

text \<open>
  A JavaScript string is modelled as a \<^typ>\<open>string\<close>; each \<^typ>\<open>char\<close> stands for one
  UTF-16 code unit below 256, so the development covers document bodies, ids and paths over
  that range. Within it the regular-expression class \<^verbatim>\<open>\s\<close> (and the characters removed by
  \<^verbatim>\<open>String.prototype.trim\<close>) is TAB, LF, VT, FF, CR, SPACE and NBSP; a dot does not match
  the line terminators LF and CR; \<^verbatim>\<open>\d\<close> is an ASCII digit.
\<close>

definition isWhiteSpace :: "char \<Rightarrow> bool" where
  "isWhiteSpace c \<longleftrightarrow>
     c = CHR 0x09 \<or> c = CHR 0x0A \<or> c = CHR 0x0B \<or> c = CHR 0x0C \<or> c = CHR 0x0D \<or>
     c = CHR 0x20 \<or> c = CHR 0xA0"

definition isLineTerminator :: "char \<Rightarrow> bool" where
  "isLineTerminator c \<longleftrightarrow> c = CHR 0x0A \<or> c = CHR 0x0D"

definition isDigit :: "char \<Rightarrow> bool" where
  "isDigit c \<longleftrightarrow> (48::nat) \<le> of_char c \<and> of_char c \<le> (57::nat)"

definition isLower :: "char \<Rightarrow> bool" where
  "isLower c \<longleftrightarrow> (97::nat) \<le> of_char c \<and> of_char c \<le> (122::nat)"

text \<open>
  Case folding. The patterns and the table keys of the source are ASCII. With the \<^verbatim>\<open>i\<close>
  flag (and no \<^verbatim>\<open>u\<close> flag) a code unit from 128 on is never identified with an ASCII
  one, and \<^verbatim>\<open>toUpperCase\<close> sends no code unit of 128..255 to a letter A..Z except
  sharp s (to SS, which occurs in no key of the prefix table). So folding the ASCII letters
  and leaving the other code units alone decides the same comparisons as the source.
\<close>

definition toUpperChar :: "char \<Rightarrow> char" where
  "toUpperChar c = (if isLower c then char_of (of_char c - (32::nat)) else c)"

definition toUpperCase :: "string \<Rightarrow> string" where
  "toUpperCase s = map toUpperChar s"

definition trim :: "string \<Rightarrow> string" where
  "trim s = rev (dropWhile isWhiteSpace (rev (dropWhile isWhiteSpace s)))"

text \<open>\<^verbatim>\<open>s.split(c)\<close> for a one-character separator: never the empty list.\<close>

fun split :: "char \<Rightarrow> string \<Rightarrow> string list" where
  "split sep [] = [[]]"
| "split sep (c # cs) =
     (if c = sep then [] # split sep cs
      else (case split sep cs of
              [] \<Rightarrow> [[c]]
            | p # ps \<Rightarrow> (c # p) # ps))"

text \<open>
  Matching a literal pattern text case-insensitively at the start of the subject; the result
  is the subject after the matched text.
\<close>

fun matchLiteral :: "string \<Rightarrow> string \<Rightarrow> string option" where
  "matchLiteral [] s = Some s"
| "matchLiteral (p # ps) [] = None"
| "matchLiteral (p # ps) (c # cs) =
     (if toUpperChar p = toUpperChar c then matchLiteral ps cs else None)"

subsection \<open>Numbers\<close>

text \<open>
  A value of type \<^verbatim>\<open>number\<close>: a finite double (a rational), NaN or an infinity. The code
  compares numbers with integer constants, subtracts one to form an array index and uses
  the result as a property key. Comparisons with NaN are false. The subtraction is only
  evaluated on a number between 1 and the grid size, where it is exact in double
  arithmetic.
\<close>

datatype jsnum = Num rat | NaN | PosInf | NegInf

fun jsLt :: "jsnum \<Rightarrow> jsnum \<Rightarrow> bool" where
  "jsLt (Num a) (Num b) = (a < b)"
| "jsLt NaN y = False"
| "jsLt x NaN = False"
| "jsLt x NegInf = False"
| "jsLt PosInf y = False"
| "jsLt NegInf y = True"
| "jsLt (Num a) PosInf = True"

fun jsLe :: "jsnum \<Rightarrow> jsnum \<Rightarrow> bool" where
  "jsLe (Num a) (Num b) = (a \<le> b)"
| "jsLe NaN y = False"
| "jsLe x NaN = False"
| "jsLe NegInf y = True"
| "jsLe x PosInf = True"
| "jsLe PosInf y = False"
| "jsLe (Num a) NegInf = False"

definition jsGt :: "jsnum \<Rightarrow> jsnum \<Rightarrow> bool" where
  "jsGt x y = jsLt y x"

definition jsGe :: "jsnum \<Rightarrow> jsnum \<Rightarrow> bool" where
  "jsGe x y = jsLe y x"

fun minusOne :: "jsnum \<Rightarrow> jsnum" where
  "minusOne (Num a) = Num (a - 1)"
| "minusOne x = x"

text \<open>
  \<^verbatim>\<open>arr[x]\<close>: the element when \<open>x\<close> is a non-negative integer below the length, and
  \<^verbatim>\<open>undefined\<close> (here \<open>None\<close>) for every other key.
\<close>

definition arrayIndex :: "jsnum \<Rightarrow> nat option" where
  "arrayIndex x =
     (case x of
        Num r \<Rightarrow> (if 0 \<le> r \<and> r = of_int \<lfloor>r\<rfloor> then Some (nat \<lfloor>r\<rfloor>) else None)
      | _ \<Rightarrow> None)"

definition arrayGet :: "'a list \<Rightarrow> jsnum \<Rightarrow> 'a option" where
  "arrayGet xs x =
     (case arrayIndex x of
        None \<Rightarrow> None
      | Some i \<Rightarrow> (if i < length xs then Some (xs ! i) else None))"

subsection \<open>Object literals used as lookup tables\<close>

text \<open>
  The lookup tables of the source are object literals, read with \<^verbatim>\<open>table[key]\<close>. Such a
  read finds the table's own entries and, for the member names of \<^verbatim>\<open>Object.prototype\<close>,
  the inherited member: a function or object, which is truthy and not nullish.
\<close>

datatype jsval = JStr string | JInherited string

definition objectPrototypeKeys :: "string list" where
  "objectPrototypeKeys =
     [''constructor'', ''__defineGetter__'', ''__defineSetter__'', ''hasOwnProperty'',
      ''__lookupGetter__'', ''__lookupSetter__'', ''isPrototypeOf'', ''propertyIsEnumerable'',
      ''toString'', ''valueOf'', ''__proto__'', ''toLocaleString'']"

definition objGet :: "(string \<times> string) list \<Rightarrow> string \<Rightarrow> jsval option" where
  "objGet table key =
     (case map_of table key of
        Some v \<Rightarrow> Some (JStr v)
      | None \<Rightarrow> (if key \<in> set objectPrototypeKeys then Some (JInherited key) else None))"

fun truthy :: "jsval \<Rightarrow> bool" where
  "truthy (JStr s) = (s \<noteq> [])"
| "truthy (JInherited k) = True"

text \<open>
  A frontmatter value has type \<^verbatim>\<open>unknown\<close>. The code observes two things of it: whether
  it is truthy, and the number that \<^verbatim>\<open>Number(v)\<close> coerces it to (NaN for a word such as
  \<^verbatim>\<open>high\<close>). The model keeps exactly these two observations; an absent field is
  \<^verbatim>\<open>undefined\<close>, which is falsy.
\<close>

datatype fmval = FmVal (fmTruthy: bool) (fmNumber: jsnum)

section \<open>Data model (types.ts)\<close>

record document =
  doc_filePath :: string
  doc_id :: string
  doc_title :: string
  doc_status :: string
  doc_docType :: jsval
  doc_frontmatter :: "string \<Rightarrow> fmval option"
  doc_body :: string

record documentIndex =
  byId :: "string \<Rightarrow> document option"
  byPath :: "string \<Rightarrow> document option"
  byType :: "string \<Rightarrow> document list option"

record link =
  link_type :: string
  link_targetId :: string

section \<open>Link extraction (parser.ts)\<close>

text \<open>
  \<^verbatim>\<open>extractLinks\<close> scans the body with eight regular expressions, all with the flags
  \<^verbatim>\<open>gi\<close>, of two shapes: \<^verbatim>\<open>marker\s*\[([^\]]+)\]\<close> and \<^verbatim>\<open>marker\s*(.+)\<close>.
\<close>

datatype patternShape = Bracketed | RestOfLine

definition linkPatterns :: "(string \<times> patternShape \<times> string) list" where
  "linkPatterns =
     [(''**Derives from:**'', Bracketed, ''derives_from''),
      (''**Verifies:**'', RestOfLine, ''verified_by''),
      (''**Validates:**'', RestOfLine, ''validated_by''),
      (''**Implements:**'', Bracketed, ''implements''),
      (''**Mitigates:**'', Bracketed, ''mitigates''),
      (''**Analyzes:**'', Bracketed, ''analyzes''),
      (''**Leads to:**'', Bracketed, ''leads_to''),
      (''**Results in:**'', Bracketed, ''results_in'')]"

text \<open>
  One attempt to match at the start of the subject \<open>s\<close>; the result is capture group 1 and
  the subject after the match. In the bracketed shape the greedy \<^verbatim>\<open>\s*\<close> and
  \<^verbatim>\<open>[^\]]+\<close> cannot succeed after giving characters back, so the match is decided
  by the longest runs.
\<close>

definition matchBracketed :: "string \<Rightarrow> string \<Rightarrow> (string \<times> string) option" where
  "matchBracketed marker s =
     (case matchLiteral marker s of
        None \<Rightarrow> None
      | Some r \<Rightarrow>
          (case dropWhile isWhiteSpace r of
             [] \<Rightarrow> None
           | c # t \<Rightarrow>
               (if c = CHR ''[''
                then (let g = takeWhile (\<lambda>x. x \<noteq> CHR '']'') t;
                          u = dropWhile (\<lambda>x. x \<noteq> CHR '']'') t
                      in if g \<noteq> [] \<and> u \<noteq> [] then Some (g, tl u) else None)
                else None)))"

text \<open>
  In the rest-of-line shape \<^verbatim>\<open>\s*\<close> also runs over line ends. When only white space
  follows the marker up to the end of the body, \<^verbatim>\<open>\s*\<close> gives characters back until
  \<^verbatim>\<open>(.+)\<close> can take one: the last white-space character that is not a line terminator.
\<close>

definition matchRestOfLine :: "string \<Rightarrow> string \<Rightarrow> (string \<times> string) option" where
  "matchRestOfLine marker s =
     (case matchLiteral marker s of
        None \<Rightarrow> None
      | Some r \<Rightarrow>
          (case dropWhile isWhiteSpace r of
             [] \<Rightarrow>
               (case dropWhile isLineTerminator (rev r) of
                  [] \<Rightarrow> None
                | c # _ \<Rightarrow> Some ([c], rev (takeWhile isLineTerminator (rev r))))
           | c # t \<Rightarrow>
               Some (takeWhile (\<lambda>x. \<not> isLineTerminator x) (c # t),
                     dropWhile (\<lambda>x. \<not> isLineTerminator x) (c # t))))"

fun matchAt :: "patternShape \<Rightarrow> string \<Rightarrow> string \<Rightarrow> (string \<times> string) option" where
  "matchAt Bracketed marker s = matchBracketed marker s"
| "matchAt RestOfLine marker s = matchRestOfLine marker s"

lemma matchLiteral_length:
  "matchLiteral m s = Some r \<Longrightarrow> length r \<le> length s"
  by (induction m s rule: matchLiteral.induct) (auto split: if_splits)

lemma length_tl_dropWhile: "length (tl (dropWhile P xs)) \<le> length xs"
  by (metis diff_le_self le_trans length_dropWhile_le length_tl)

lemma dropWhile_Cons_not: "dropWhile P xs = c # t \<Longrightarrow> \<not> P c"
  by (metis hd_dropWhile list.sel(1) list.distinct(1))

lemma matchBracketed_shorter:
  assumes "matchBracketed marker s = Some (g, rest)"
  shows "length rest < length s"
proof -
  from assms obtain r t where r: "matchLiteral marker s = Some r"
    and d: "dropWhile isWhiteSpace r = CHR ''['' # t"
    and rest: "rest = tl (dropWhile (\<lambda>x. x \<noteq> CHR '']'') t)"
    by (auto simp: matchBracketed_def Let_def split: option.splits list.splits if_splits)
  have "length rest \<le> length t"
    unfolding rest by (rule length_tl_dropWhile)
  moreover have "length (CHR ''['' # t) \<le> length r"
    using length_dropWhile_le [of isWhiteSpace r] by (simp add: d)
  ultimately show ?thesis
    using matchLiteral_length [OF r] by simp
qed

lemma matchRestOfLine_shorter:
  assumes "matchRestOfLine marker s = Some (g, rest)"
  shows "length rest < length s"
proof -
  from assms obtain r where r: "matchLiteral marker s = Some r"
    by (auto simp: matchRestOfLine_def split: option.splits)
  show ?thesis
  proof (cases "dropWhile isWhiteSpace r")
    case Nil
    with assms r obtain c u where c: "dropWhile isLineTerminator (rev r) = c # u"
      and rest: "rest = rev (takeWhile isLineTerminator (rev r))"
      by (auto simp: matchRestOfLine_def split: list.splits)
    have "length (takeWhile isLineTerminator (rev r)) + length (dropWhile isLineTerminator (rev r))
          = length r"
      by (metis length_append length_rev takeWhile_dropWhile_id)
    then have "length rest < length r"
      by (simp add: rest c)
    then show ?thesis
      using matchLiteral_length [OF r] by simp
  next
    case (Cons c t)
    with assms r have rest: "rest = dropWhile (\<lambda>x. \<not> isLineTerminator x) (c # t)"
      by (auto simp: matchRestOfLine_def)
    have "\<not> isWhiteSpace c"
      using Cons by (rule dropWhile_Cons_not)
    then have "\<not> isLineTerminator c"
      by (auto simp: isLineTerminator_def isWhiteSpace_def)
    then have "length rest \<le> length t"
      by (simp add: rest length_dropWhile_le)
    moreover have "length (c # t) \<le> length r"
      using length_dropWhile_le [of isWhiteSpace r] by (simp add: Cons)
    ultimately show ?thesis
      using matchLiteral_length [OF r] by simp
  qed
qed

lemma matchAt_shorter:
  "matchAt shape marker s = Some (g, rest) \<Longrightarrow> length rest < length s"
  by (cases shape) (auto dest: matchBracketed_shorter matchRestOfLine_shorter)

text \<open>
  The \<^verbatim>\<open>while ((match = pattern.exec(body)) !== null)\<close> loop: \<^verbatim>\<open>exec\<close> resumes at
  \<^verbatim>\<open>lastIndex\<close>, the end of the previous match, and tries each later start position in
  turn. The result lists capture group 1 of every match, in order.
\<close>

function execAll :: "patternShape \<Rightarrow> string \<Rightarrow> string \<Rightarrow> string list" where
  "execAll shape marker s =
     (case matchAt shape marker s of
        Some (g, rest) \<Rightarrow> g # execAll shape marker rest
      | None \<Rightarrow> (case s of [] \<Rightarrow> [] | c # cs \<Rightarrow> execAll shape marker cs))"
  by pat_completeness auto
termination
  by (relation "measure (\<lambda>(shape, marker, s). length s)") (auto dest: matchAt_shorter)

declare execAll.simps [simp del]

text \<open>
  \<^verbatim>\<open>text.match(/\[([^\]]+)\]/g)\<close>: the bracketed pieces of the text, brackets included,
  from left to right; the empty list stands for \<^verbatim>\<open>null\<close>.
\<close>

function bracketMatches :: "string \<Rightarrow> string list" where
  "bracketMatches [] = []"
| "bracketMatches (c # cs) =
     (if c = CHR ''['' \<and> takeWhile (\<lambda>x. x \<noteq> CHR '']'') cs \<noteq> []
         \<and> dropWhile (\<lambda>x. x \<noteq> CHR '']'') cs \<noteq> []
      then (c # takeWhile (\<lambda>x. x \<noteq> CHR '']'') cs @ '']'')
             # bracketMatches (tl (dropWhile (\<lambda>x. x \<noteq> CHR '']'') cs))
      else bracketMatches cs)"
  by pat_completeness auto
termination
  by (relation "measure length")
     (auto simp: less_Suc_eq_le intro: le_trans [OF diff_le_self length_dropWhile_le])

definition stripBrackets :: "string \<Rightarrow> string" where
  "stripBrackets m = filter (\<lambda>c. c \<noteq> CHR ''['' \<and> c \<noteq> CHR '']'') m"

definition linksOfText :: "string \<Rightarrow> string \<Rightarrow> link list" where
  "linksOfText ty text =
     (case bracketMatches text of
        [] \<Rightarrow> (let i = trim text
               in if i \<noteq> [] then [\<lparr>link_type = ty, link_targetId = i\<rparr>] else [])
      | ms \<Rightarrow> map (\<lambda>m. \<lparr>link_type = ty, link_targetId = stripBrackets m\<rparr>) ms)"

definition linksOfPattern :: "string \<Rightarrow> string \<times> patternShape \<times> string \<Rightarrow> link list" where
  "linksOfPattern body p =
     (case p of (marker, shape, ty) \<Rightarrow>
        concat (map (linksOfText ty) (execAll shape marker body)))"

definition extractLinks :: "document \<Rightarrow> link list" where
  "extractLinks doc = concat (map (linksOfPattern (doc_body doc)) linkPatterns)"


section \<open>Type inference (parser.ts)\<close>

definition DIR_TYPE_MAP :: "(string \<times> string) list" where
  "DIR_TYPE_MAP =
     [(''user-needs'', ''user_need''),
      (''product-requirements'', ''product_requirement''),
      (''software-requirements'', ''software_requirement''),
      (''architecture'', ''architecture''),
      (''design'', ''detailed_design''),
      (''test'', ''test_case''),
      (''risk'', ''risk''),
      (''sops'', ''sop''),
      (''policies'', ''policy''),
      (''work-instructions'', ''work_instruction''),
      (''external-reports'', ''external_report''),
      (''harms'', ''harm''),
      (''situations'', ''hazardous_situation''),
      (''software'', ''risk''),
      (''usability'', ''risk''),
      (''security'', ''risk'')]"

text \<open>
  The loop \<^verbatim>\<open>for (let i = parts.length - 2; i >= 0; i--)\<close> visits the directory segments
  from the deepest one up; \<open>walkUp\<close> takes them in that order.
\<close>

fun walkUp :: "string list \<Rightarrow> jsval" where
  "walkUp [] = JStr ''unknown''"
| "walkUp (dir # dirs) =
     (case objGet DIR_TYPE_MAP dir of
        None \<Rightarrow> walkUp dirs
      | Some v \<Rightarrow> (if truthy v then v else walkUp dirs))"

definition inferDocType :: "string \<Rightarrow> jsval" where
  "inferDocType filePath = walkUp (rev (butlast (split (CHR ''/'') filePath)))"

definition prefixMap :: "(string \<times> string) list" where
  "prefixMap =
     [(''UN'', ''user_need''),
      (''PRS'', ''product_requirement''),
      (''SRS'', ''software_requirement''),
      (''SDD'', ''detailed_design''),
      (''HLD'', ''architecture''),
      (''TC'', ''test_case''),
      (''RISK'', ''risk''),
      (''HAZ'', ''hazard''),
      (''HS'', ''hazardous_situation''),
      (''HARM'', ''harm''),
      (''SOP'', ''sop''),
      (''POL'', ''policy''),
      (''WI'', ''work_instruction''),
      (''AUD'', ''external_report''),
      (''PT'', ''external_report'')]"

definition inferTypeFromId :: "string \<Rightarrow> jsval" where
  "inferTypeFromId i =
     (let prefix = toUpperCase (case split (CHR ''-'') i of [] \<Rightarrow> [] | p # _ \<Rightarrow> p)
      in case objGet prefixMap prefix of None \<Rightarrow> JStr ''unknown'' | Some v \<Rightarrow> v)"

text \<open>
  \<^verbatim>\<open>parseDocument\<close> reads the file and splits it with gray-matter. The model starts from
  what that yields: the frontmatter \<open>data\<close> with its \<^verbatim>\<open>id\<close>, \<^verbatim>\<open>title\<close> and
  \<^verbatim>\<open>status\<close> entries as strings after the defaults \<^verbatim>\<open>?? ''\<close>, \<^verbatim>\<open>?? 'Untitled'\<close>,
  \<^verbatim>\<open>?? 'unknown'\<close>, and the body. \<open>None\<close> is the \<^verbatim>\<open>null\<close> result.
\<close>

definition parseDocument ::
  "string \<Rightarrow> string \<Rightarrow> string \<Rightarrow> string \<Rightarrow> (string \<Rightarrow> fmval option) \<Rightarrow> string
   \<Rightarrow> document option" where
  "parseDocument filePath i title status data body =
     (if i = [] then None
      else Some \<lparr>doc_filePath = filePath, doc_id = i, doc_title = title, doc_status = status,
                 doc_docType = (let docType = inferDocType filePath
                                in if docType = JStr ''unknown'' then inferTypeFromId i
                                   else docType),
                 doc_frontmatter = data, doc_body = body\<rparr>)"

section \<open>Traceability validation (validators/traceability.ts)\<close>

datatype repoType = qms | device

record traceabilityChain =
  chain_source :: string
  chain_target :: string
  chain_link :: string

text \<open>Of \<^verbatim>\<open>Config\<close> the validator reads \<^verbatim>\<open>type\<close> and \<^verbatim>\<open>traceability.chains\<close>.\<close>

record config =
  cfg_type :: repoType
  cfg_chains :: "traceabilityChain list"

datatype warningSeverity = warning | error

record validationWarning =
  w_file :: string
  w_rule :: jsval
  w_message :: string
  w_severity :: warningSeverity

text \<open>
  The \<^verbatim>\<open>chainName\<close> of a coverage entry joins the two formatted type names with an arrow,
  a code unit outside the range of \<^typ>\<open>char\<close>; the field is left out.
\<close>

record traceabilityCoverage =
  cov_sourceType :: string
  cov_targetType :: string
  cov_totalSources :: nat
  cov_coveredSources :: nat
  cov_coveragePercent :: int

record gapEntry =
  gap_documentId :: string
  gap_gapType :: string
  gap_message :: string
  gap_severity :: warningSeverity

record traceabilityResult =
  res_warnings :: "validationWarning list"
  res_coverage :: "traceabilityCoverage list"
  res_gaps :: "gapEntry list"

subsection \<open>The coverage percentage in double arithmetic\<close>

text \<open>
  \<^verbatim>\<open>Math.round((coveredCount / sourceDocs.length) * 100)\<close> divides and multiplies in IEEE
  754 double precision: each result is the exact value rounded to the nearest number with
  a 53-bit significand, ties to even. \<^verbatim>\<open>Math.round\<close> then takes the nearest integer,
  ties upwards. The counts are far inside the normal range, so exponent limits play no part.
\<close>

fun log2floor :: "nat \<Rightarrow> nat" where
  "log2floor n = (if n < 2 then 0 else Suc (log2floor (n div 2)))"

declare log2floor.simps [simp del]

definition binade :: "rat \<Rightarrow> int" where
  "binade x =
     (if 1 \<le> x then int (log2floor (nat \<lfloor>x\<rfloor>))
      else (let m = nat \<lceil>1 / x\<rceil>
            in if m \<le> 1 then 0 else - int (Suc (log2floor (m - 1)))))"

definition pow2 :: "int \<Rightarrow> rat" where
  "pow2 e = (if 0 \<le> e then 2 ^ nat e else 1 / 2 ^ nat (- e))"

definition roundHalfEven :: "rat \<Rightarrow> int" where
  "roundHalfEven q =
     (let f = \<lfloor>q\<rfloor>; r = q - of_int f
      in if r < 1 / 2 then f
         else if 1 / 2 < r then f + 1
         else if even f then f else f + 1)"

definition toDouble :: "rat \<Rightarrow> rat" where
  "toDouble x =
     (if x \<le> 0 then 0
      else (let u = pow2 (binade x - 52) in of_int (roundHalfEven (x / u)) * u))"

definition mathRound :: "rat \<Rightarrow> int" where
  "mathRound x = \<lfloor>x + 1 / 2\<rfloor>"

definition coveragePercent :: "nat \<Rightarrow> nat \<Rightarrow> int" where
  "coveragePercent coveredCount totalSources =
     (if totalSources > 0
      then mathRound (toDouble (toDouble (of_nat coveredCount / of_nat totalSources) * 100))
      else 100)"

subsection \<open>Chains\<close>

text \<open>
  \<^verbatim>\<open>docLinks\<close> maps a document id to the links extracted from the document; a later
  document with the same id replaces the entry. \<^verbatim>\<open>docLinks.get(id) ?? []\<close> is \<open>linksOf\<close>,
  \<^verbatim>\<open>index.byType.get(t) ?? []\<close> is \<open>docsOfType\<close>.
\<close>

definition buildDocLinks :: "document list \<Rightarrow> (string \<Rightarrow> link list option)" where
  "buildDocLinks documents =
     foldl (\<lambda>m doc. m(doc_id doc \<mapsto> extractLinks doc)) Map.empty documents"

definition linksOf :: "(string \<Rightarrow> link list option) \<Rightarrow> string \<Rightarrow> link list" where
  "linksOf docLinks i = (case docLinks i of None \<Rightarrow> [] | Some ls \<Rightarrow> ls)"

definition docsOfType :: "documentIndex \<Rightarrow> string \<Rightarrow> document list" where
  "docsOfType index t = (case byType index t of None \<Rightarrow> [] | Some ds \<Rightarrow> ds)"

definition hasRequiredLink :: "traceabilityChain \<Rightarrow> link list \<Rightarrow> bool" where
  "hasRequiredLink chain links =
     list_ex (\<lambda>l. if chain_link chain = ''verified_by''
                  then link_type l = ''verified_by'' \<or> link_type l = ''validated_by''
                  else link_type l = chain_link chain) links"

definition hasCoveringTarget ::
  "documentIndex \<Rightarrow> (string \<Rightarrow> link list option) \<Rightarrow> traceabilityChain \<Rightarrow> document \<Rightarrow> bool" where
  "hasCoveringTarget index docLinks chain sourceDoc =
     list_ex (\<lambda>targetDoc.
        list_ex (\<lambda>l. (link_type l = ''verified_by'' \<or> link_type l = ''validated_by'')
                     \<and> link_targetId l = doc_id sourceDoc)
          (linksOf docLinks (doc_id targetDoc)))
       (docsOfType index (chain_target chain))"

definition ruleMap :: "(string \<times> string) list" where
  "ruleMap =
     [(''derives_from'', ''traceability/requirement-derivation''),
      (''verified_by'', ''traceability/test-coverage''),
      (''mitigates'', ''traceability/risk-mitigation''),
      (''implements'', ''traceability/design-coverage'')]"

definition missingLinkWarning :: "traceabilityChain \<Rightarrow> document \<Rightarrow> validationWarning" where
  "missingLinkWarning chain sourceDoc =
     \<lparr>w_file = doc_filePath sourceDoc,
      w_rule = (case objGet ruleMap (chain_link chain) of
                  None \<Rightarrow> JStr ''traceability/missing-link''
                | Some v \<Rightarrow> v),
      w_message = doc_id sourceDoc @ '' ('' @ chain_source chain @ '') has no '' @ [CHR 0x22]
                    @ chain_link chain @ [CHR 0x22] @ '' link to a '' @ chain_target chain,
      w_severity = warning\<rparr>"

definition missingLinkGap :: "traceabilityChain \<Rightarrow> document \<Rightarrow> gapEntry" where
  "missingLinkGap chain sourceDoc =
     \<lparr>gap_documentId = doc_id sourceDoc,
      gap_gapType = ''missing_'' @ chain_link chain,
      gap_message = ''No '' @ [CHR 0x22] @ chain_link chain @ [CHR 0x22] @ '' link to ''
                      @ chain_target chain,
      gap_severity = warning\<rparr>"

text \<open>
  The body of the loop over the source documents of a chain; the state is the running
  \<^verbatim>\<open>coveredCount\<close> with the \<^verbatim>\<open>warnings\<close> and \<^verbatim>\<open>gaps\<close> arrays.
\<close>

definition sourceStep ::
  "documentIndex \<Rightarrow> (string \<Rightarrow> link list option) \<Rightarrow> traceabilityChain
   \<Rightarrow> nat \<times> validationWarning list \<times> gapEntry list \<Rightarrow> document
   \<Rightarrow> nat \<times> validationWarning list \<times> gapEntry list" where
  "sourceStep index docLinks chain st sourceDoc =
     (case st of (coveredCount, warnings, gaps) \<Rightarrow>
        if hasRequiredLink chain (linksOf docLinks (doc_id sourceDoc))
        then (coveredCount + 1, warnings, gaps)
        else if chain_link chain = ''verified_by''
                \<and> hasCoveringTarget index docLinks chain sourceDoc
        then (coveredCount + 1, warnings, gaps)
        else (coveredCount,
              warnings @ [missingLinkWarning chain sourceDoc],
              gaps @ [missingLinkGap chain sourceDoc]))"

definition chainStep ::
  "documentIndex \<Rightarrow> (string \<Rightarrow> link list option)
   \<Rightarrow> validationWarning list \<times> traceabilityCoverage list \<times> gapEntry list \<Rightarrow> traceabilityChain
   \<Rightarrow> validationWarning list \<times> traceabilityCoverage list \<times> gapEntry list" where
  "chainStep index docLinks st chain =
     (case st of (warnings, coverage, gaps) \<Rightarrow>
        (let sourceDocs = docsOfType index (chain_source chain)
         in case foldl (sourceStep index docLinks chain) (0, warnings, gaps) sourceDocs of
              (coveredCount, warnings', gaps') \<Rightarrow>
                (warnings',
                 coverage @ [\<lparr>cov_sourceType = chain_source chain,
                               cov_targetType = chain_target chain,
                               cov_totalSources = length sourceDocs,
                               cov_coveredSources = coveredCount,
                               cov_coveragePercent =
                                 coveragePercent coveredCount (length sourceDocs)\<rparr>],
                 gaps')))"

subsection \<open>Hazard chains\<close>

definition hazardNoSituation ::
  "document \<Rightarrow> string \<Rightarrow> validationWarning \<times> gapEntry" where
  "hazardNoSituation hazardDoc hazardId =
     (\<lparr>w_file = doc_filePath hazardDoc,
       w_rule = JStr ''traceability/hazard-chain'',
       w_message = ''Hazard '' @ hazardId @ '' has no '' @ [CHR 0x22] @ ''leads_to''
                     @ [CHR 0x22] @ '' hazardous situation'',
       w_severity = warning\<rparr>,
      \<lparr>gap_documentId = hazardId,
       gap_gapType = ''hazard_no_situation'',
       gap_message = ''Hazard has no leads_to link'',
       gap_severity = warning\<rparr>)"

definition situationNoHarm ::
  "document \<Rightarrow> string \<Rightarrow> validationWarning \<times> gapEntry" where
  "situationNoHarm situationDoc situationId =
     (\<lparr>w_file = doc_filePath situationDoc,
       w_rule = JStr ''traceability/hazard-chain'',
       w_message = ''Hazardous situation '' @ situationId @ '' has no '' @ [CHR 0x22]
                     @ ''results_in'' @ [CHR 0x22] @ '' harm'',
       w_severity = warning\<rparr>,
      \<lparr>gap_documentId = situationId,
       gap_gapType = ''situation_no_harm'',
       gap_message = ''Situation has no results_in link'',
       gap_severity = warning\<rparr>)"

text \<open>
  What one pass of the loop over the risk documents pushes: \<open>None\<close> when the pass ends
  (by \<^verbatim>\<open>continue\<close> or at its end) without a push.
\<close>

definition hazardFinding ::
  "documentIndex \<Rightarrow> (string \<Rightarrow> link list option) \<Rightarrow> document
   \<Rightarrow> (validationWarning \<times> gapEntry) option" where
  "hazardFinding index docLinks risk =
     (case find (\<lambda>l. link_type l = ''analyzes'') (linksOf docLinks (doc_id risk)) of
        None \<Rightarrow> None
      | Some analyzesLink \<Rightarrow>
          (let hazardId = link_targetId analyzesLink
           in case byId index hazardId of
                None \<Rightarrow> None
              | Some hazardDoc \<Rightarrow>
                  (case find (\<lambda>l. link_type l = ''leads_to'') (linksOf docLinks hazardId) of
                     None \<Rightarrow> Some (hazardNoSituation hazardDoc hazardId)
                   | Some leadsTo \<Rightarrow>
                       (case byId index (link_targetId leadsTo) of
                          None \<Rightarrow> None
                        | Some situationDoc \<Rightarrow>
                            (case find (\<lambda>l. link_type l = ''results_in'')
                                    (linksOf docLinks (link_targetId leadsTo)) of
                               None \<Rightarrow>
                                 Some (situationNoHarm situationDoc (link_targetId leadsTo))
                             | Some resultsIn \<Rightarrow> None)))))"

definition hazardStep ::
  "documentIndex \<Rightarrow> (string \<Rightarrow> link list option)
   \<Rightarrow> validationWarning list \<times> gapEntry list \<Rightarrow> document
   \<Rightarrow> validationWarning list \<times> gapEntry list" where
  "hazardStep index docLinks st risk =
     (case st of (warnings, gaps) \<Rightarrow>
        (case hazardFinding index docLinks risk of
           None \<Rightarrow> (warnings, gaps)
         | Some (w, g) \<Rightarrow> (warnings @ [w], gaps @ [g])))"

text \<open>
  \<^verbatim>\<open>validateHazardChains\<close> appends to the arrays it is given; the model returns them. Its
  \<^verbatim>\<open>documents\<close> parameter is not read.
\<close>

definition validateHazardChains ::
  "document list \<Rightarrow> documentIndex \<Rightarrow> (string \<Rightarrow> link list option)
   \<Rightarrow> validationWarning list \<Rightarrow> gapEntry list
   \<Rightarrow> validationWarning list \<times> gapEntry list" where
  "validateHazardChains documents index docLinks warnings gaps =
     foldl (hazardStep index docLinks) (warnings, gaps) (docsOfType index ''risk'')"

definition validateTraceability ::
  "document list \<Rightarrow> documentIndex \<Rightarrow> config \<Rightarrow> traceabilityResult" where
  "validateTraceability documents index cfg =
     (if cfg_type cfg \<noteq> device
      then \<lparr>res_warnings = [], res_coverage = [], res_gaps = []\<rparr>
      else (let docLinks = buildDocLinks documents
            in case foldl (chainStep index docLinks) ([], [], []) (cfg_chains cfg) of
                 (warnings, coverage, gaps) \<Rightarrow>
                   (case validateHazardChains documents index docLinks warnings gaps of
                      (warnings', gaps') \<Rightarrow>
                        \<lparr>res_warnings = warnings', res_coverage = coverage,
                         res_gaps = gaps'\<rparr>)))"

section \<open>Risk matrix (reports/risk-matrix.ts)\<close>

datatype acceptability = acceptable | review_required | unacceptable

definition DEFAULT_ACCEPTABILITY :: "acceptability list list" where
  "DEFAULT_ACCEPTABILITY =
     [[acceptable, acceptable, acceptable, acceptable, review_required],
      [acceptable, acceptable, acceptable, review_required, review_required],
      [acceptable, acceptable, review_required, review_required, unacceptable],
      [acceptable, review_required, review_required, unacceptable, unacceptable],
      [review_required, review_required, unacceptable, unacceptable, unacceptable]]"

text \<open>
  Reading a property of \<^verbatim>\<open>undefined\<close> throws a \<^verbatim>\<open>TypeError\<close>; a function that can
  throw returns a sum with the exception on the left.
\<close>

datatype exception = TypeError

text \<open>
  \<^verbatim>\<open>getAcceptability\<close> is declared to return a tier. When the row exists and the column
  key is not one of its indices the read yields \<^verbatim>\<open>undefined\<close>, here \<open>None\<close>.
\<close>

definition getAcceptability :: "jsnum \<Rightarrow> jsnum \<Rightarrow> exception + acceptability option" where
  "getAcceptability probability severity =
     (if jsLt probability (Num 1) \<or> jsGt probability (Num 5)
         \<or> jsLt severity (Num 1) \<or> jsGt severity (Num 5)
      then Inr (Some review_required)
      else (case arrayGet DEFAULT_ACCEPTABILITY (minusOne probability) of
              None \<Rightarrow> Inl TypeError
            | Some row \<Rightarrow> Inr (arrayGet row (minusOne severity))))"

subsection \<open>Risk values of a document\<close>

record riskValues =
  rv_severity :: jsnum
  rv_probability :: jsnum
  rv_residualSeverity :: "jsnum option"
  rv_residualProbability :: "jsnum option"

definition fieldTruthy :: "(string \<Rightarrow> fmval option) \<Rightarrow> string \<Rightarrow> bool" where
  "fieldTruthy fm k = (case fm k of None \<Rightarrow> False | Some v \<Rightarrow> fmTruthy v)"

definition fieldNumber :: "(string \<Rightarrow> fmval option) \<Rightarrow> string \<Rightarrow> jsnum" where
  "fieldNumber fm k = (case fm k of None \<Rightarrow> NaN | Some v \<Rightarrow> fmNumber v)"

text \<open>
  The body patterns \<^verbatim>\<open>/\|\s*Severity\s*\|\s*(\d)/i\<close>, \<^verbatim>\<open>/\|\s*Residual\s*Severity\s*\|\s*(\d)/i\<close>
  and the two for the probability: a bar, the words of the label with optional white space
  before each, a bar and a digit, each after optional white space. \<^verbatim>\<open>body.match\<close> finds
  the leftmost match; \<open>None\<close> is \<^verbatim>\<open>null\<close>, otherwise the captured digit.
\<close>

fun matchWords :: "string list \<Rightarrow> string \<Rightarrow> string option" where
  "matchWords [] s = Some s"
| "matchWords (w # ws) s =
     (case matchLiteral w (dropWhile isWhiteSpace s) of
        None \<Rightarrow> None
      | Some r \<Rightarrow> matchWords ws r)"

definition matchRowAt :: "string list \<Rightarrow> string \<Rightarrow> char option" where
  "matchRowAt labels s =
     (case s of
        [] \<Rightarrow> None
      | c # r \<Rightarrow>
          (if c = CHR ''|''
           then (case matchWords labels r of
                   None \<Rightarrow> None
                 | Some r1 \<Rightarrow>
                     (case dropWhile isWhiteSpace r1 of
                        [] \<Rightarrow> None
                      | c1 # r2 \<Rightarrow>
                          (if c1 = CHR ''|''
                           then (case dropWhile isWhiteSpace r2 of
                                   [] \<Rightarrow> None
                                 | d # _ \<Rightarrow> (if isDigit d then Some d else None))
                           else None)))
           else None))"

fun searchRow :: "string list \<Rightarrow> string \<Rightarrow> char option" where
  "searchRow labels [] = matchRowAt labels []"
| "searchRow labels (c # cs) =
     (case matchRowAt labels (c # cs) of
        Some d \<Rightarrow> Some d
      | None \<Rightarrow> searchRow labels cs)"

text \<open>\<^verbatim>\<open>parseInt(d, 10)\<close> of one digit.\<close>

definition parseDigit :: "char \<Rightarrow> jsnum" where
  "parseDigit d = Num (of_nat (of_char d - 48))"

definition extractRiskValues :: "document \<Rightarrow> riskValues option" where
  "extractRiskValues doc =
     (let fm = doc_frontmatter doc
      in if fieldTruthy fm ''severity'' \<and> fieldTruthy fm ''probability''
         then Some \<lparr>rv_severity = fieldNumber fm ''severity'',
                    rv_probability = fieldNumber fm ''probability'',
                    rv_residualSeverity =
                      (if fieldTruthy fm ''residual_severity''
                       then Some (fieldNumber fm ''residual_severity'') else None),
                    rv_residualProbability =
                      (if fieldTruthy fm ''residual_probability''
                       then Some (fieldNumber fm ''residual_probability'') else None)\<rparr>
         else (let body = doc_body doc;
                   severityMatch = searchRow [''Severity''] body;
                   probabilityMatch = searchRow [''Probability''] body;
                   residualSeverityMatch = searchRow [''Residual'', ''Severity''] body;
                   residualProbabilityMatch = searchRow [''Residual'', ''Probability''] body
               in case severityMatch of
                    None \<Rightarrow> None
                  | Some sd \<Rightarrow>
                      (case probabilityMatch of
                         None \<Rightarrow> None
                       | Some pd \<Rightarrow>
                           Some \<lparr>rv_severity = parseDigit sd,
                                 rv_probability = parseDigit pd,
                                 rv_residualSeverity = map_option parseDigit residualSeverityMatch,
                                 rv_residualProbability =
                                   map_option parseDigit residualProbabilityMatch\<rparr>)))"

subsection \<open>The matrix\<close>

record riskEntry =
  risk_id :: string
  risk_title :: string
  risk_severity :: jsnum
  risk_probability :: jsnum
  risk_residualSeverity :: "jsnum option"
  risk_residualProbability :: "jsnum option"
  risk_mitigates :: "string list"
  risk_acceptability :: "acceptability option"

record riskSummary =
  sum_total :: nat
  sum_acceptable :: nat
  sum_reviewRequired :: nat
  sum_unacceptable :: nat

record riskMatrix =
  rm_inherent :: "nat list list"
  rm_residual :: "nat list list"
  rm_acceptability :: "acceptability list list"
  rm_risks :: "riskEntry list"
  rm_summary :: riskSummary

text \<open>The grid size is a count: a natural number.\<close>

definition createGrid :: "nat \<Rightarrow> nat list list" where
  "createGrid n = replicate n (replicate n 0)"

text \<open>
  \<^verbatim>\<open>grid[i][j]++\<close>. A row key that is not an index of the grid reads \<^verbatim>\<open>undefined\<close>, and
  the column access on it throws. A column key that is no array index (a fraction, NaN)
  makes the source store NaN under that key, next to the cells, which stay as they are. A
  whole column key past the end of the row would make the source append to the row; the
  guard of \<open>populate\<close> keeps every whole key of an \<open>n\<close> by \<open>n\<close> grid below \<open>n\<close>, so that
  branch is never taken from \<open>buildRiskMatrix\<close>, and it leaves the grid as it is here.
\<close>

definition increment :: "nat list list \<Rightarrow> jsnum \<Rightarrow> jsnum \<Rightarrow> exception + nat list list" where
  "increment grid i j =
     (case arrayIndex i of
        None \<Rightarrow> Inl TypeError
      | Some r \<Rightarrow>
          (if r < length grid
           then (case arrayIndex j of
                   None \<Rightarrow> Inr grid
                 | Some c \<Rightarrow>
                     (if c < length (grid ! r)
                      then Inr (grid[r := (grid ! r)[c := (grid ! r) ! c + 1]])
                      else Inr grid))
           else Inl TypeError))"

definition inGrid :: "nat \<Rightarrow> jsnum \<Rightarrow> jsnum \<Rightarrow> bool" where
  "inGrid gridSize probability severity \<longleftrightarrow>
     jsGe probability (Num 1) \<and> jsLe probability (Num (of_nat gridSize))
     \<and> jsGe severity (Num 1) \<and> jsLe severity (Num (of_nat gridSize))"

definition populate ::
  "nat \<Rightarrow> nat list list \<Rightarrow> jsnum \<Rightarrow> jsnum \<Rightarrow> exception + nat list list" where
  "populate gridSize grid probability severity =
     (if inGrid gridSize probability severity
      then increment grid (minusOne probability) (minusOne severity)
      else Inr grid)"

text \<open>The local variables of \<^verbatim>\<open>buildRiskMatrix\<close> that its loop updates.\<close>

record matrixState =
  st_inherent :: "nat list list"
  st_residual :: "nat list list"
  st_risks :: "riskEntry list"
  st_acceptable :: nat
  st_reviewRequired :: nat
  st_unacceptable :: nat

definition riskStep :: "nat \<Rightarrow> matrixState \<Rightarrow> document \<Rightarrow> exception + matrixState" where
  "riskStep gridSize st doc =
     (case extractRiskValues doc of
        None \<Rightarrow> Inr st
      | Some values \<Rightarrow>
          (let severity = rv_severity values;
               probability = rv_probability values;
               residualSeverity = rv_residualSeverity values;
               residualProbability = rv_residualProbability values
           in case populate gridSize (st_inherent st) probability severity of
                Inl e \<Rightarrow> Inl e
              | Inr inherent \<Rightarrow>
                  (let resSev = (case residualSeverity of None \<Rightarrow> severity | Some v \<Rightarrow> v);
                       resProb = (case residualProbability of None \<Rightarrow> probability | Some v \<Rightarrow> v)
                   in case populate gridSize (st_residual st) resProb resSev of
                        Inl e \<Rightarrow> Inl e
                      | Inr residual \<Rightarrow>
                          (case getAcceptability resProb resSev of
                             Inl e \<Rightarrow> Inl e
                           | Inr acceptabilityStatus \<Rightarrow>
                               Inr \<lparr>st_inherent = inherent,
                                    st_residual = residual,
                                    st_risks = st_risks st @
                                      [\<lparr>risk_id = doc_id doc,
                                        risk_title = doc_title doc,
                                        risk_severity = severity,
                                        risk_probability = probability,
                                        risk_residualSeverity = residualSeverity,
                                        risk_residualProbability = residualProbability,
                                        risk_mitigates =
                                          map link_targetId
                                            (filter (\<lambda>l. link_type l = ''mitigates'')
                                               (extractLinks doc)),
                                        risk_acceptability = acceptabilityStatus\<rparr>],
                                    st_acceptable = st_acceptable st +
                                      (if acceptabilityStatus = Some acceptable then 1 else 0),
                                    st_reviewRequired = st_reviewRequired st +
                                      (if acceptabilityStatus = Some review_required then 1 else 0),
                                    st_unacceptable = st_unacceptable st +
                                      (if acceptabilityStatus = Some unacceptable then 1 else 0)\<rparr>))))"

fun riskLoop :: "nat \<Rightarrow> matrixState \<Rightarrow> document list \<Rightarrow> exception + matrixState" where
  "riskLoop gridSize st [] = Inr st"
| "riskLoop gridSize st (doc # docs) =
     (case riskStep gridSize st doc of
        Inl e \<Rightarrow> Inl e
      | Inr st' \<Rightarrow> riskLoop gridSize st' docs)"

definition initialState :: "nat \<Rightarrow> matrixState" where
  "initialState gridSize =
     \<lparr>st_inherent = createGrid gridSize, st_residual = createGrid gridSize, st_risks = [],
      st_acceptable = 0, st_reviewRequired = 0, st_unacceptable = 0\<rparr>"

definition toMatrix :: "matrixState \<Rightarrow> riskMatrix" where
  "toMatrix st =
     \<lparr>rm_inherent = st_inherent st,
      rm_residual = st_residual st,
      rm_acceptability = DEFAULT_ACCEPTABILITY,
      rm_risks = st_risks st,
      rm_summary = \<lparr>sum_total = length (st_risks st),
                    sum_acceptable = st_acceptable st,
                    sum_reviewRequired = st_reviewRequired st,
                    sum_unacceptable = st_unacceptable st\<rparr>\<rparr>"

text \<open>
  \<^verbatim>\<open>buildRiskMatrix\<close>: \<open>Inr None\<close> is the \<^verbatim>\<open>null\<close> result, \<open>Inr (Some m)\<close> a matrix,
  \<open>Inl e\<close> an exception that leaves the function.
\<close>

definition buildRiskMatrix :: "documentIndex \<Rightarrow> nat \<Rightarrow> exception + riskMatrix option" where
  "buildRiskMatrix index gridSize =
     (let riskDocs = docsOfType index ''risk''
      in if length riskDocs = 0 then Inr None
         else (case riskLoop gridSize (initialState gridSize) riskDocs of
                 Inl e \<Rightarrow> Inl e
               | Inr st \<Rightarrow> Inr (Some (toMatrix st))))"

section \<open>Documents and indices for the evaluations\<close>

text \<open>
  The loop of \<^verbatim>\<open>buildDocumentIndex\<close> over the parsed documents, in discovery order:
  \<^verbatim>\<open>byId\<close> and \<^verbatim>\<open>byPath\<close> keep the last document of a key, \<^verbatim>\<open>byType\<close> groups in
  order. The lookups of the validators use string keys, so a group under a type that is
  not a string is never read.
\<close>

definition buildDocumentIndex :: "document list \<Rightarrow> documentIndex" where
  "buildDocumentIndex docs =
     \<lparr>byId = foldl (\<lambda>m doc. m(doc_id doc \<mapsto> doc)) Map.empty docs,
      byPath = foldl (\<lambda>m doc. m(doc_filePath doc \<mapsto> doc)) Map.empty docs,
      byType = (\<lambda>t. case filter (\<lambda>doc. doc_docType doc = JStr t) docs of
                        [] \<Rightarrow> None
                      | ds \<Rightarrow> Some ds)\<rparr>"

text \<open>A document in the \<^verbatim>\<open>risk\<close> directory, as \<open>parseDocument\<close> returns it.\<close>

definition riskDocument :: "string \<Rightarrow> (string \<Rightarrow> fmval option) \<Rightarrow> string \<Rightarrow> document" where
  "riskDocument i fm body =
     \<lparr>doc_filePath = ''risk/'' @ i @ ''.md'', doc_id = i, doc_title = ''Untitled'',
      doc_status = ''unknown'', doc_docType = JStr ''risk'', doc_frontmatter = fm,
      doc_body = body\<rparr>"

text \<open>A document with no frontmatter fields, of a given path, id, type and body.\<close>

definition plainDocument :: "string \<Rightarrow> string \<Rightarrow> string \<Rightarrow> string \<Rightarrow> document" where
  "plainDocument filePath i docType body =
     \<lparr>doc_filePath = filePath, doc_id = i, doc_title = ''Untitled'', doc_status = ''unknown'',
      doc_docType = JStr docType, doc_frontmatter = Map.empty, doc_body = body\<rparr>"

text \<open>
  Coverage of a source document as the specification words it (C3): an outbound link of
  the chain's kind, or, for the kind \<^verbatim>\<open>verified_by\<close>, a document of the target type with
  a \<^verbatim>\<open>verified_by\<close> link to the source document.
\<close>

definition coveredAsClaimed ::
  "documentIndex \<Rightarrow> (string \<Rightarrow> link list option) \<Rightarrow> traceabilityChain \<Rightarrow> document \<Rightarrow> bool" where
  "coveredAsClaimed index docLinks chain d \<longleftrightarrow>
     (\<exists>l \<in> set (linksOf docLinks (doc_id d)). link_type l = chain_link chain)
     \<or> (chain_link chain = ''verified_by''
         \<and> (\<exists>t \<in> set (docsOfType index (chain_target chain)).
              \<exists>l \<in> set (linksOf docLinks (doc_id t)).
                link_type l = ''verified_by'' \<and> link_targetId l = doc_id d))"

text \<open>
  Coverage as amended: in a \<^verbatim>\<open>verified_by\<close> chain a \<^verbatim>\<open>validated_by\<close> link counts like a
  \<^verbatim>\<open>verified_by\<close> link, in both directions.
\<close>

definition coveredAsAmended ::
  "documentIndex \<Rightarrow> (string \<Rightarrow> link list option) \<Rightarrow> traceabilityChain \<Rightarrow> document \<Rightarrow> bool" where
  "coveredAsAmended index docLinks chain d \<longleftrightarrow>
     (\<exists>l \<in> set (linksOf docLinks (doc_id d)).
        link_type l = chain_link chain
        \<or> (chain_link chain = ''verified_by'' \<and> link_type l = ''validated_by''))
     \<or> (chain_link chain = ''verified_by''
         \<and> (\<exists>t \<in> set (docsOfType index (chain_target chain)).
              \<exists>l \<in> set (linksOf docLinks (doc_id t)).
                (link_type l = ''verified_by'' \<or> link_type l = ''validated_by'')
                \<and> link_targetId l = doc_id d))"

text \<open>
  Notions for stating the properties of the risk matrix: the sum of the cells of a grid,
  the number of entries of a tier, the entry that the loop pushes for a document with the
  values \<open>v\<close> and the tier \<open>a\<close>, the residual pair with its defaults, a grid of
  \<open>n\<close> rows of \<open>n\<close> cells, and values that are whole numbers.
\<close>

definition gridSum :: "nat list list \<Rightarrow> nat" where
  "gridSum grid = sum_list (map sum_list grid)"

definition tierCount :: "acceptability \<Rightarrow> riskEntry list \<Rightarrow> nat" where
  "tierCount t risks = length (filter (\<lambda>e. risk_acceptability e = Some t) risks)"

definition summaryInvariant :: "matrixState \<Rightarrow> bool" where
  "summaryInvariant st \<longleftrightarrow>
     st_acceptable st = tierCount acceptable (st_risks st)
     \<and> st_reviewRequired st = tierCount review_required (st_risks st)
     \<and> st_unacceptable st = tierCount unacceptable (st_risks st)
     \<and> gridSum (st_inherent st) \<le> length (st_risks st)
     \<and> gridSum (st_residual st) \<le> length (st_risks st)"

definition entryOf :: "document \<Rightarrow> riskValues \<Rightarrow> acceptability option \<Rightarrow> riskEntry" where
  "entryOf doc v a =
     \<lparr>risk_id = doc_id doc, risk_title = doc_title doc,
      risk_severity = rv_severity v, risk_probability = rv_probability v,
      risk_residualSeverity = rv_residualSeverity v,
      risk_residualProbability = rv_residualProbability v,
      risk_mitigates =
        map link_targetId (filter (\<lambda>l. link_type l = ''mitigates'') (extractLinks doc)),
      risk_acceptability = a\<rparr>"

definition residualProbabilityOf :: "riskValues \<Rightarrow> jsnum" where
  "residualProbabilityOf v =
     (case rv_residualProbability v of None \<Rightarrow> rv_probability v | Some x \<Rightarrow> x)"

definition residualSeverityOf :: "riskValues \<Rightarrow> jsnum" where
  "residualSeverityOf v =
     (case rv_residualSeverity v of None \<Rightarrow> rv_severity v | Some x \<Rightarrow> x)"

definition squareGrid :: "nat \<Rightarrow> nat list list \<Rightarrow> bool" where
  "squareGrid n grid \<longleftrightarrow> length grid = n \<and> (\<forall>row \<in> set grid. length row = n)"

definition isWhole :: "jsnum \<Rightarrow> bool" where
  "isWhole x \<longleftrightarrow> (\<exists>k. x = Num (of_int k))"

definition wholeValues :: "document \<Rightarrow> bool" where
  "wholeValues doc \<longleftrightarrow>
     (case extractRiskValues doc of
        None \<Rightarrow> True
      | Some v \<Rightarrow> isWhole (rv_severity v) \<and> isWhole (rv_probability v)
                 \<and> isWhole (residualProbabilityOf v) \<and> isWhole (residualSeverityOf v))"

definition tierOfResidual :: "riskEntry \<Rightarrow> bool" where
  "tierOfResidual e \<longleftrightarrow>
     getAcceptability
       (case risk_residualProbability e of None \<Rightarrow> risk_probability e | Some x \<Rightarrow> x)
       (case risk_residualSeverity e of None \<Rightarrow> risk_severity e | Some x \<Rightarrow> x)
     = Inr (risk_acceptability e)"

section \<open>Properties of the link extraction\<close>















lemma dropWhile_all: "\<forall>c \<in> set sp. P c \<Longrightarrow> dropWhile P (sp @ xs) = dropWhile P xs"
  by (induction sp) auto

lemma takeWhile_until: "c \<notin> set g \<Longrightarrow> takeWhile (\<lambda>x. x \<noteq> c) (g @ c # post) = g"
  by (induction g) auto

lemma dropWhile_until: "c \<notin> set g \<Longrightarrow> dropWhile (\<lambda>x. x \<noteq> c) (g @ c # post) = c # post"
  by (induction g) auto












lemma matchLiteral_fold:
  "toUpperCase m' = toUpperCase m \<Longrightarrow> matchLiteral m (m' @ r) = Some r"
proof (induction m arbitrary: m')
  case Nil
  then show ?case by (simp add: toUpperCase_def)
next
  case (Cons p ps)
  then obtain c cs where "m' = c # cs" "toUpperChar c = toUpperChar p" "toUpperCase cs = toUpperCase ps"
    by (cases m') (auto simp: toUpperCase_def)
  then show ?case
    using Cons.IH by simp
qed

lemma matchLiteral_Some:
  "matchLiteral m s = Some r \<Longrightarrow> \<exists>m'. s = m' @ r \<and> toUpperCase m' = toUpperCase m"
proof (induction m s rule: matchLiteral.induct)
  case (1 s)
  then show ?case by (simp add: toUpperCase_def)
next
  case (2 p ps)
  then show ?case by simp
next
  case (3 p ps c cs)
  then obtain q where q: "cs = q @ r" "toUpperCase q = toUpperCase ps" and pc: "toUpperChar p = toUpperChar c"
    by (auto split: if_splits)
  then have "c # cs = (c # q) @ r \<and> toUpperCase (c # q) = toUpperCase (p # ps)"
    by (simp add: toUpperCase_def)
  then show ?case by blast
qed

lemma matchBracketed_fold:
  assumes "toUpperCase m' = toUpperCase marker" and "\<forall>c \<in> set sp. isWhiteSpace c"
    and "g \<noteq> []" and "CHR '']'' \<notin> set g"
  shows "matchBracketed marker (m' @ sp @ ''['' @ g @ '']'' @ post) = Some (g, post)"
proof -
  have l: "matchLiteral marker (m' @ sp @ ''['' @ g @ '']'' @ post)
           = Some (sp @ ''['' @ g @ '']'' @ post)"
    using assms(1) by (rule matchLiteral_fold)
  have d: "dropWhile isWhiteSpace (sp @ ''['' @ g @ '']'' @ post) = CHR ''['' # g @ '']'' @ post"
    using assms(2) by (simp add: dropWhile_all isWhiteSpace_def)
  have t: "takeWhile (\<lambda>x. x \<noteq> CHR '']'') (g @ '']'' @ post) = g"
    using assms(4) by (simp add: takeWhile_until)
  have u: "dropWhile (\<lambda>x. x \<noteq> CHR '']'') (g @ '']'' @ post) = '']'' @ post"
    using assms(4) by (simp add: dropWhile_until)
  show ?thesis
    unfolding matchBracketed_def
    using assms(3) by (simp only: l d t u option.case list.case Let_def) simp
qed

lemma dropWhile_split:
  "dropWhile P xs = c # t \<Longrightarrow> xs = takeWhile P xs @ c # t"
  by (metis takeWhile_dropWhile_id)

lemma matchBracketed_Some:
  assumes "matchBracketed marker s = Some (g, rest)"
  shows "\<exists>m' sp. s = m' @ sp @ ''['' @ g @ '']'' @ rest \<and> toUpperCase m' = toUpperCase marker
           \<and> (\<forall>c \<in> set sp. isWhiteSpace c) \<and> g \<noteq> [] \<and> CHR '']'' \<notin> set g"
proof -
  from assms obtain r t where r: "matchLiteral marker s = Some r"
    and d: "dropWhile isWhiteSpace r = CHR ''['' # t"
    and g: "g = takeWhile (\<lambda>x. x \<noteq> CHR '']'') t" "g \<noteq> []"
    and u: "dropWhile (\<lambda>x. x \<noteq> CHR '']'') t \<noteq> []"
    and rest: "rest = tl (dropWhile (\<lambda>x. x \<noteq> CHR '']'') t)"
    by (auto simp: matchBracketed_def Let_def split: option.splits list.splits if_splits)
  from r obtain m' where m': "s = m' @ r" "toUpperCase m' = toUpperCase marker"
    by (auto dest: matchLiteral_Some)
  define sp where "sp = takeWhile isWhiteSpace r"
  have r': "r = sp @ CHR ''['' # t"
    unfolding sp_def using d by (rule dropWhile_split)
  have sp: "\<forall>c \<in> set sp. isWhiteSpace c"
    unfolding sp_def by (auto dest: set_takeWhileD)
  from u obtain x v where xv: "dropWhile (\<lambda>x. x \<noteq> CHR '']'') t = x # v"
    by (cases "dropWhile (\<lambda>x. x \<noteq> CHR '']'') t") auto
  then have "\<not> x \<noteq> CHR '']''"
    by (rule dropWhile_Cons_not)
  then have x: "x = CHR '']''" by simp
  have t: "t = g @ CHR '']'' # rest"
    unfolding g rest using dropWhile_split [OF xv] by (simp add: xv x)
  have "CHR '']'' \<notin> set g"
    unfolding g by (auto dest: set_takeWhileD)
  then show ?thesis
    using m' r' sp g(2) t by auto
qed

lemma matchBracketed_iff:
  "matchBracketed marker s = Some (g, rest) \<longleftrightarrow>
     (\<exists>m' sp. s = m' @ sp @ ''['' @ g @ '']'' @ rest \<and> toUpperCase m' = toUpperCase marker
        \<and> (\<forall>c \<in> set sp. isWhiteSpace c) \<and> g \<noteq> [] \<and> CHR '']'' \<notin> set g)"
  using matchBracketed_Some matchBracketed_fold by blast


lemma line_terminator_white: "isLineTerminator c \<Longrightarrow> isWhiteSpace c"
  by (auto simp: isLineTerminator_def isWhiteSpace_def)





lemma matchRestOfLine_Some:
  assumes "matchRestOfLine marker s = Some (g, rest)"
  shows "\<exists>m' sp. s = m' @ sp @ g @ rest \<and> toUpperCase m' = toUpperCase marker
           \<and> (\<forall>c \<in> set sp. isWhiteSpace c) \<and> g \<noteq> []
           \<and> (\<forall>x \<in> set g. \<not> isLineTerminator x)
           \<and> (rest = [] \<or> isLineTerminator (hd rest))
           \<and> (isWhiteSpace (hd g) \<longrightarrow> length g = 1 \<and> (\<forall>x \<in> set rest. isLineTerminator x))"
proof -
  from assms obtain r where r: "matchLiteral marker s = Some r"
    by (auto simp: matchRestOfLine_def split: option.splits)
  then obtain m' where m': "s = m' @ r" "toUpperCase m' = toUpperCase marker"
    by (auto dest: matchLiteral_Some)
  show ?thesis
  proof (cases "dropWhile isWhiteSpace r")
    case Nil
    with assms r obtain c u where c: "dropWhile isLineTerminator (rev r) = c # u"
      and g: "g = [c]" and rest: "rest = rev (takeWhile isLineTerminator (rev r))"
      by (auto simp: matchRestOfLine_def split: list.splits)
    have nl: "\<not> isLineTerminator c"
      using c by (rule dropWhile_Cons_not)
    have "rev r = takeWhile isLineTerminator (rev r) @ c # u"
      using c by (rule dropWhile_split)
    then have "rev (rev r) = rev (takeWhile isLineTerminator (rev r) @ c # u)"
      by simp
    then have r': "r = rev u @ [c] @ rest"
      by (simp add: rest)
    have ws: "\<forall>x \<in> set r. isWhiteSpace x"
      using Nil by (simp add: dropWhile_eq_Nil_conv)
    have lt: "\<forall>x \<in> set rest. isLineTerminator x"
      unfolding rest by (auto dest: set_takeWhileD)
    have sp: "\<forall>x \<in> set (rev u). isWhiteSpace x"
      using ws r' by (metis Un_iff set_append)
    have "rest = [] \<or> isLineTerminator (hd rest)"
      using lt by (cases rest) auto
    then show ?thesis
      using m' r' sp nl lt g by (intro exI [of _ m'] exI [of _ "rev u"]) simp
  next
    case (Cons c t)
    with assms r have g: "g = takeWhile (\<lambda>x. \<not> isLineTerminator x) (c # t)"
      and rest: "rest = dropWhile (\<lambda>x. \<not> isLineTerminator x) (c # t)"
      by (auto simp: matchRestOfLine_def)
    have nw: "\<not> isWhiteSpace c"
      using Cons by (rule dropWhile_Cons_not)
    then have nl: "\<not> isLineTerminator c"
      by (auto dest: line_terminator_white)
    define sp where "sp = takeWhile isWhiteSpace r"
    have r': "r = sp @ c # t"
      unfolding sp_def using Cons by (rule dropWhile_split)
    have sp: "\<forall>c \<in> set sp. isWhiteSpace c"
      unfolding sp_def by (auto dest: set_takeWhileD)
    have gr: "c # t = g @ rest"
      unfolding g rest by simp
    have hd: "hd g = c" "g \<noteq> []"
      unfolding g using nl by auto
    have gl: "\<forall>x \<in> set g. \<not> isLineTerminator x"
      unfolding g by (auto dest: set_takeWhileD)
    have "rest = [] \<or> isLineTerminator (hd rest)"
    proof (cases rest)
      case Nil
      then show ?thesis by simp
    next
      case (Cons x xs)
      then have "\<not> \<not> isLineTerminator x"
        unfolding rest by (rule dropWhile_Cons_not)
      then show ?thesis using Cons by simp
    qed
    then show ?thesis
      using m' r' sp gr hd gl nw by (intro exI [of _ m'] exI [of _ sp]) simp
  qed
qed































section \<open>Properties of the type inference\<close>

lemma toUpperChar_not_lower: "\<not> isLower (toUpperChar c)"
proof (cases "isLower c")
  case True
  define n :: nat where "n = of_char c"
  from True have n: "97 \<le> n" "n \<le> 122"
    by (simp_all add: isLower_def n_def)
  then have "(n - 32) mod 256 = n - 32"
    by (intro mod_less) arith
  then have "of_char (char_of (n - 32)) = n - 32"
    by simp
  moreover have "\<not> (97 \<le> n - 32 \<and> n - 32 \<le> 122)"
    using n by arith
  ultimately show ?thesis
    using True by (simp add: toUpperChar_def isLower_def n_def)
next
  case False
  then show ?thesis by (simp add: toUpperChar_def)
qed

lemma toUpperCase_no_lower: "c \<in> set (toUpperCase s) \<Longrightarrow> \<not> isLower c"
  by (auto simp: toUpperCase_def toUpperChar_not_lower)

lemma objectPrototypeKeys_lower: "k \<in> set objectPrototypeKeys \<Longrightarrow> \<exists>c \<in> set k. isLower c"
  by (auto simp: objectPrototypeKeys_def isLower_def)

lemma toUpperCase_not_inherited: "toUpperCase s \<notin> set objectPrototypeKeys"
  using objectPrototypeKeys_lower toUpperCase_no_lower by blast

lemma split_first: "(case split sep s of [] \<Rightarrow> [] | p # _ \<Rightarrow> p) = takeWhile (\<lambda>c. c \<noteq> sep) s"
  by (induction s) (auto split: list.splits)

lemma inferTypeFromId_string:
  "inferTypeFromId i =
     JStr (case map_of prefixMap (toUpperCase (takeWhile (\<lambda>c. c \<noteq> CHR ''-'') i)) of
             None \<Rightarrow> ''unknown''
           | Some t \<Rightarrow> t)"
  using toUpperCase_not_inherited [of "takeWhile (\<lambda>c. c \<noteq> CHR ''-'') i"]
  by (simp add: inferTypeFromId_def split_first objGet_def split: option.splits)

lemma DIR_TYPE_MAP_values:
  "map_of DIR_TYPE_MAP d = Some t \<Longrightarrow> t \<noteq> [] \<and> t \<noteq> ''unknown''"
  by (auto simp: DIR_TYPE_MAP_def split: if_splits)

lemma walkUp_own:
  assumes "set dirs \<inter> set objectPrototypeKeys = {}"
  shows "walkUp dirs =
     (case find (\<lambda>d. map_of DIR_TYPE_MAP d \<noteq> None) dirs of
        None \<Rightarrow> JStr ''unknown''
      | Some d \<Rightarrow> JStr (the (map_of DIR_TYPE_MAP d)))"
  using assms
proof (induction dirs)
  case Nil
  show ?case by simp
next
  case (Cons d dirs)
  then show ?case
    by (auto simp: objGet_def dest: DIR_TYPE_MAP_values split: option.splits)
qed

text \<open>
  The precedence of the type inference, for a path none of whose directory segments is a
  member name of \<^verbatim>\<open>Object.prototype\<close>: the table entry of the first directory segment,
  from the deepest one up, that the directory table holds; else the entry of the prefix
  table for the upper-cased id prefix before the first hyphen; else \<^verbatim>\<open>unknown\<close>. The
  frontmatter does not occur in the result.
\<close>

lemma docType_precedence:
  assumes "i \<noteq> []"
    and "set (butlast (split (CHR ''/'') filePath)) \<inter> set objectPrototypeKeys = {}"
  shows "map_option doc_docType (parseDocument filePath i title status data body) =
     Some (case find (\<lambda>d. map_of DIR_TYPE_MAP d \<noteq> None)
                  (rev (butlast (split (CHR ''/'') filePath))) of
             Some d \<Rightarrow> JStr (the (map_of DIR_TYPE_MAP d))
           | None \<Rightarrow>
               JStr (case map_of prefixMap
                           (toUpperCase (takeWhile (\<lambda>c. c \<noteq> CHR ''-'') i)) of
                       None \<Rightarrow> ''unknown''
                     | Some t \<Rightarrow> t))"
proof -
  have w: "inferDocType filePath =
     (case find (\<lambda>d. map_of DIR_TYPE_MAP d \<noteq> None)
             (rev (butlast (split (CHR ''/'') filePath))) of
        None \<Rightarrow> JStr ''unknown''
      | Some d \<Rightarrow> JStr (the (map_of DIR_TYPE_MAP d)))"
    unfolding inferDocType_def using assms(2) by (intro walkUp_own) simp
  show ?thesis
  proof (cases "find (\<lambda>d. map_of DIR_TYPE_MAP d \<noteq> None)
                  (rev (butlast (split (CHR ''/'') filePath)))")
    case None
    then show ?thesis
      using assms(1) w by (simp add: parseDocument_def inferTypeFromId_string)
  next
    case (Some d)
    then have "map_of DIR_TYPE_MAP d \<noteq> None"
      by (auto simp: find_Some_iff)
    then obtain t where t: "map_of DIR_TYPE_MAP d = Some t"
      by auto
    then have "t \<noteq> ''unknown''"
      using DIR_TYPE_MAP_values by blast
    then show ?thesis
      using assms(1) w Some t by (simp add: parseDocument_def)
  qed
qed

text \<open>
  C8. The directory table is an object literal, and \<^verbatim>\<open>DIR_TYPE_MAP[dir]\<close> also finds
  the members every object inherits. For the file \<^verbatim>\<open>constructor/SRS-001.md\<close> with the
  id \<^verbatim>\<open>SRS-001\<close> no entry of the table matches a directory, so the precedence asks
  for the type of the id prefix, \<^verbatim>\<open>software_requirement\<close>, which a path such as
  \<^verbatim>\<open>docs/SRS-001.md\<close> gets. The code reads the inherited \<^verbatim>\<open>constructor\<close> function,
  which is truthy and not the string \<^verbatim>\<open>unknown\<close>, and keeps it as the type. (A file in
  a \<^verbatim>\<open>test\<close> directory gets \<^verbatim>\<open>test_case\<close> whatever its id.)
\<close>

theorem docType_inherited_member:
  "map_option doc_docType
     (parseDocument ''constructor/SRS-001.md'' ''SRS-001'' ''Untitled'' ''unknown'' Map.empty [])
     = Some (JInherited ''constructor'')
   \<and> map_option doc_docType
       (parseDocument ''docs/SRS-001.md'' ''SRS-001'' ''Untitled'' ''unknown'' Map.empty [])
     = Some (JStr ''software_requirement'')
   \<and> map_option doc_docType
       (parseDocument ''docs/test/SRS-001.md'' ''SRS-001'' ''Untitled'' ''unknown'' Map.empty [])
     = Some (JStr ''test_case'')"
  by code_simp

section \<open>Properties of the traceability validation\<close>

lemma sourceStep_covered:
  "sourceStep index docLinks chain (n, ws, gs) d =
     (if coveredAsAmended index docLinks chain d then (n + 1, ws, gs)
      else (n, ws @ [missingLinkWarning chain d], gs @ [missingLinkGap chain d]))"
  by (auto simp: sourceStep_def coveredAsAmended_def hasRequiredLink_def hasCoveringTarget_def
                 list_ex_iff)

lemma foldl_sourceStep:
  "foldl (sourceStep index docLinks chain) (n, ws, gs) docs =
     (n + length (filter (coveredAsAmended index docLinks chain) docs),
      ws @ map (missingLinkWarning chain)
             (filter (\<lambda>d. \<not> coveredAsAmended index docLinks chain d) docs),
      gs @ map (missingLinkGap chain)
             (filter (\<lambda>d. \<not> coveredAsAmended index docLinks chain d) docs))"
proof (induction docs arbitrary: n ws gs)
  case Nil
  show ?case by simp
next
  case (Cons d docs)
  show ?case
    by (simp add: sourceStep_covered Cons.IH)
qed

lemma buildDocLinks_snoc:
  "buildDocLinks (docs @ [d]) = (buildDocLinks docs)(doc_id d \<mapsto> extractLinks d)"
  by (simp add: buildDocLinks_def)

lemma buildDocLinks_own:
  "distinct (map doc_id documents) \<Longrightarrow> d \<in> set documents
   \<Longrightarrow> linksOf (buildDocLinks documents) (doc_id d) = extractLinks d"
proof (induction documents rule: rev_induct)
  case Nil
  then show ?case by simp
next
  case (snoc x xs)
  show ?case
  proof (cases "d = x")
    case True
    then show ?thesis by (simp add: buildDocLinks_snoc linksOf_def)
  next
    case False
    with snoc.prems have d: "d \<in> set xs" and ne: "doc_id x \<noteq> doc_id d"
      by auto
    have "linksOf (buildDocLinks (xs @ [x])) (doc_id d) = linksOf (buildDocLinks xs) (doc_id d)"
      using ne by (simp add: buildDocLinks_snoc linksOf_def)
    then show ?thesis
      using snoc.IH snoc.prems d by simp
  qed
qed

text \<open>
  C3, as the code has it. In the loop over the source documents of a chain a document
  raises the covered count exactly when it is covered in the amended sense, and otherwise
  adds one warning and one gap. So the coverage entry of the chain counts the documents
  covered in that sense. For a chain of any other kind than \<^verbatim>\<open>verified_by\<close> coverage
  is an outbound link of the chain's kind and nothing else. The links of a document are
  those recorded under its id; they are its own links when the ids of the document list
  are distinct and the list holds the document.
\<close>

theorem chain_coverage_amended:
  "sourceStep index docLinks chain (n, ws, gs) d =
     (if coveredAsAmended index docLinks chain d then (n + 1, ws, gs)
      else (n, ws @ [missingLinkWarning chain d], gs @ [missingLinkGap chain d]))
   \<and> chainStep index docLinks (ws, cov, gs) chain =
       (ws @ map (missingLinkWarning chain)
               (filter (\<lambda>d. \<not> coveredAsAmended index docLinks chain d)
                  (docsOfType index (chain_source chain))),
        cov @ [\<lparr>cov_sourceType = chain_source chain,
                 cov_targetType = chain_target chain,
                 cov_totalSources = length (docsOfType index (chain_source chain)),
                 cov_coveredSources =
                   length (filter (coveredAsAmended index docLinks chain)
                             (docsOfType index (chain_source chain))),
                 cov_coveragePercent =
                   coveragePercent
                     (length (filter (coveredAsAmended index docLinks chain)
                                (docsOfType index (chain_source chain))))
                     (length (docsOfType index (chain_source chain)))\<rparr>],
        gs @ map (missingLinkGap chain)
               (filter (\<lambda>d. \<not> coveredAsAmended index docLinks chain d)
                  (docsOfType index (chain_source chain))))
   \<and> (chain_link chain \<noteq> ''verified_by'' \<longrightarrow>
        coveredAsAmended index docLinks chain d =
          (\<exists>l \<in> set (linksOf docLinks (doc_id d)). link_type l = chain_link chain))
   \<and> (distinct (map doc_id documents) \<and> d \<in> set documents \<longrightarrow>
        linksOf (buildDocLinks documents) (doc_id d) = extractLinks d)"
proof (intro conjI impI)
  show "sourceStep index docLinks chain (n, ws, gs) d =
     (if coveredAsAmended index docLinks chain d then (n + 1, ws, gs)
      else (n, ws @ [missingLinkWarning chain d], gs @ [missingLinkGap chain d]))"
    by (rule sourceStep_covered)
  show "chainStep index docLinks (ws, cov, gs) chain =
       (ws @ map (missingLinkWarning chain)
               (filter (\<lambda>d. \<not> coveredAsAmended index docLinks chain d)
                  (docsOfType index (chain_source chain))),
        cov @ [\<lparr>cov_sourceType = chain_source chain,
                 cov_targetType = chain_target chain,
                 cov_totalSources = length (docsOfType index (chain_source chain)),
                 cov_coveredSources =
                   length (filter (coveredAsAmended index docLinks chain)
                             (docsOfType index (chain_source chain))),
                 cov_coveragePercent =
                   coveragePercent
                     (length (filter (coveredAsAmended index docLinks chain)
                                (docsOfType index (chain_source chain))))
                     (length (docsOfType index (chain_source chain)))\<rparr>],
        gs @ map (missingLinkGap chain)
               (filter (\<lambda>d. \<not> coveredAsAmended index docLinks chain d)
                  (docsOfType index (chain_source chain))))"
    by (simp add: chainStep_def Let_def foldl_sourceStep)
next
  assume "chain_link chain \<noteq> ''verified_by''"
  then show "coveredAsAmended index docLinks chain d =
          (\<exists>l \<in> set (linksOf docLinks (doc_id d)). link_type l = chain_link chain)"
    by (simp add: coveredAsAmended_def)
next
  assume "distinct (map doc_id documents) \<and> d \<in> set documents"
  then show "linksOf (buildDocLinks documents) (doc_id d) = extractLinks d"
    by (simp add: buildDocLinks_own)
qed

text \<open>
  The theorem at a \<^verbatim>\<open>mitigates\<close> chain and one risk document whose body declares the
  link: the kind is not \<^verbatim>\<open>verified_by\<close>, the one-document list has distinct ids, and
  the document is covered through its own link.
\<close>

theorem chain_coverage_amended_witness:
  "''mitigates'' \<noteq> ''verified_by''
   \<and> distinct (map doc_id [plainDocument ''risk/RISK-1.md'' ''RISK-1'' ''risk''
                             ''**Mitigates:** [SRS-001]''])
   \<and> linksOf (buildDocLinks [plainDocument ''risk/RISK-1.md'' ''RISK-1'' ''risk''
                                ''**Mitigates:** [SRS-001]'']) ''RISK-1''
      = [\<lparr>link_type = ''mitigates'', link_targetId = ''SRS-001''\<rparr>]
   \<and> coveredAsAmended
        (buildDocumentIndex [plainDocument ''risk/RISK-1.md'' ''RISK-1'' ''risk''
                               ''**Mitigates:** [SRS-001]''])
        (buildDocLinks [plainDocument ''risk/RISK-1.md'' ''RISK-1'' ''risk''
                          ''**Mitigates:** [SRS-001]''])
        \<lparr>chain_source = ''risk'', chain_target = ''software_requirement'',
         chain_link = ''mitigates''\<rparr>
        (plainDocument ''risk/RISK-1.md'' ''RISK-1'' ''risk'' ''**Mitigates:** [SRS-001]'')"
proof -
  let ?d = "plainDocument ''risk/RISK-1.md'' ''RISK-1'' ''risk'' ''**Mitigates:** [SRS-001]''"
  let ?chain = "\<lparr>chain_source = ''risk'', chain_target = ''software_requirement'',
                 chain_link = ''mitigates''\<rparr>"
  have k: "chain_link ?chain \<noteq> ''verified_by''"
    by simp
  have dis: "distinct (map doc_id [?d]) \<and> ?d \<in> set [?d]"
    by simp
  have ex: "extractLinks ?d = [\<lparr>link_type = ''mitigates'', link_targetId = ''SRS-001''\<rparr>]"
    by code_simp
  note inst = chain_coverage_amended
    [where chain = ?chain and d = ?d and documents = "[?d]"
       and index = "buildDocumentIndex [?d]" and docLinks = "buildDocLinks [?d]"]
  from inst dis have own: "linksOf (buildDocLinks [?d]) (doc_id ?d) = extractLinks ?d"
    by blast
  from inst k have "coveredAsAmended (buildDocumentIndex [?d]) (buildDocLinks [?d]) ?chain ?d
      = (\<exists>l \<in> set (linksOf (buildDocLinks [?d]) (doc_id ?d)). link_type l = chain_link ?chain)"
    by blast
  then have cov: "coveredAsAmended (buildDocumentIndex [?d]) (buildDocLinks [?d]) ?chain ?d"
    by (simp add: own ex)
  have i: "doc_id ?d = ''RISK-1''"
    by (simp add: plainDocument_def)
  show ?thesis
    using k dis own ex cov i by simp
qed

text \<open>
  C3 as worded fails: a test case whose only link is \<^verbatim>\<open>**Validates:** [UN-001]\<close> has no
  outbound \<^verbatim>\<open>verified_by\<close> link and no target document links to it, yet the
  \<^verbatim>\<open>verified_by\<close> chain from test cases counts it as covered and raises no warning.
\<close>

theorem validated_by_counts_counterexample:
  "\<not> coveredAsClaimed
        (buildDocumentIndex
           [plainDocument ''test/TC-001.md'' ''TC-001'' ''test_case'' ''**Validates:** [UN-001]''])
        (buildDocLinks
           [plainDocument ''test/TC-001.md'' ''TC-001'' ''test_case'' ''**Validates:** [UN-001]''])
        \<lparr>chain_source = ''test_case'', chain_target = ''software_requirement'',
         chain_link = ''verified_by''\<rparr>
        (plainDocument ''test/TC-001.md'' ''TC-001'' ''test_case'' ''**Validates:** [UN-001]'')
   \<and> validateTraceability
        [plainDocument ''test/TC-001.md'' ''TC-001'' ''test_case'' ''**Validates:** [UN-001]'']
        (buildDocumentIndex
           [plainDocument ''test/TC-001.md'' ''TC-001'' ''test_case'' ''**Validates:** [UN-001]''])
        \<lparr>cfg_type = device,
         cfg_chains = [\<lparr>chain_source = ''test_case'', chain_target = ''software_requirement'',
                        chain_link = ''verified_by''\<rparr>]\<rparr>
      = \<lparr>res_warnings = [],
         res_coverage = [\<lparr>cov_sourceType = ''test_case'',
                           cov_targetType = ''software_requirement'',
                           cov_totalSources = 1, cov_coveredSources = 1,
                           cov_coveragePercent = 100\<rparr>],
         res_gaps = []\<rparr>"
  by code_simp

lemma hazardStep_pair:
  "hazardStep index docLinks (ws, gs) r =
     (case hazardFinding index docLinks r of
        None \<Rightarrow> (ws, gs)
      | Some (w, g) \<Rightarrow> (ws @ [w], gs @ [g]))"
  by (simp add: hazardStep_def)

lemma foldl_hazardStep:
  "foldl (hazardStep index docLinks) (ws, gs) risks =
     (ws @ map fst (List.map_filter (hazardFinding index docLinks) risks),
      gs @ map snd (List.map_filter (hazardFinding index docLinks) risks))"
proof (induction risks arbitrary: ws gs)
  case Nil
  show ?case by (simp add: List.map_filter_simps)
next
  case (Cons r risks)
  show ?case
  proof (cases "hazardFinding index docLinks r")
    case None
    then show ?thesis
      by (simp add: hazardStep_pair List.map_filter_simps Cons.IH)
  next
    case (Some f)
    then show ?thesis
      by (cases f) (simp add: hazardStep_pair List.map_filter_simps Cons.IH)
  qed
qed

text \<open>
  C4, as the code has it. The hazard-chain pass appends, in the order of the risk group,
  the finding of each risk document: at most one warning with one gap. The finding is
  decided by the first \<^verbatim>\<open>analyzes\<close> link recorded under the id of the risk document and
  by the first \<^verbatim>\<open>leads_to\<close> link recorded under the id of the hazard:
  nothing without an \<^verbatim>\<open>analyzes\<close> link or when the target of the first one is not in
  the index; a warning for the file of the hazard (rule \<^verbatim>\<open>traceability/hazard-chain\<close>)
  and a \<^verbatim>\<open>hazard_no_situation\<close> gap when no \<^verbatim>\<open>leads_to\<close> link is recorded for the
  hazard; a warning for the file of the situation and a \<^verbatim>\<open>situation_no_harm\<close> gap when
  the target of the first \<^verbatim>\<open>leads_to\<close> link is in the index and no \<^verbatim>\<open>results_in\<close> link
  is recorded for it; nothing otherwise.
\<close>

theorem hazard_chain_amended:
  "validateHazardChains documents index docLinks ws gs =
     (ws @ map fst (List.map_filter (hazardFinding index docLinks) (docsOfType index ''risk'')),
      gs @ map snd (List.map_filter (hazardFinding index docLinks) (docsOfType index ''risk'')))
   \<and> (find (\<lambda>l. link_type l = ''analyzes'') (linksOf docLinks (doc_id risk)) = None
        \<longrightarrow> hazardFinding index docLinks risk = None)
   \<and> (find (\<lambda>l. link_type l = ''analyzes'') (linksOf docLinks (doc_id risk)) = Some a
        \<and> byId index (link_targetId a) = None
        \<longrightarrow> hazardFinding index docLinks risk = None)
   \<and> (find (\<lambda>l. link_type l = ''analyzes'') (linksOf docLinks (doc_id risk)) = Some a
        \<and> byId index (link_targetId a) = Some h
        \<and> find (\<lambda>l. link_type l = ''leads_to'') (linksOf docLinks (link_targetId a)) = None
        \<longrightarrow> hazardFinding index docLinks risk = Some (hazardNoSituation h (link_targetId a))
            \<and> w_file (fst (hazardNoSituation h (link_targetId a))) = doc_filePath h
            \<and> w_rule (fst (hazardNoSituation h (link_targetId a)))
                = JStr ''traceability/hazard-chain''
            \<and> gap_documentId (snd (hazardNoSituation h (link_targetId a))) = link_targetId a
            \<and> gap_gapType (snd (hazardNoSituation h (link_targetId a)))
                = ''hazard_no_situation'')
   \<and> (find (\<lambda>l. link_type l = ''analyzes'') (linksOf docLinks (doc_id risk)) = Some a
        \<and> byId index (link_targetId a) = Some h
        \<and> find (\<lambda>l. link_type l = ''leads_to'') (linksOf docLinks (link_targetId a)) = Some lt
        \<and> byId index (link_targetId lt) = Some s
        \<and> find (\<lambda>l. link_type l = ''results_in'') (linksOf docLinks (link_targetId lt)) = None
        \<longrightarrow> hazardFinding index docLinks risk = Some (situationNoHarm s (link_targetId lt))
            \<and> w_file (fst (situationNoHarm s (link_targetId lt))) = doc_filePath s
            \<and> w_rule (fst (situationNoHarm s (link_targetId lt)))
                = JStr ''traceability/hazard-chain''
            \<and> gap_documentId (snd (situationNoHarm s (link_targetId lt))) = link_targetId lt
            \<and> gap_gapType (snd (situationNoHarm s (link_targetId lt)))
                = ''situation_no_harm'')
   \<and> (find (\<lambda>l. link_type l = ''analyzes'') (linksOf docLinks (doc_id risk)) = Some a
        \<and> byId index (link_targetId a) = Some h
        \<and> find (\<lambda>l. link_type l = ''leads_to'') (linksOf docLinks (link_targetId a)) = Some lt
        \<and> (byId index (link_targetId lt) = None
            \<or> find (\<lambda>l. link_type l = ''results_in'') (linksOf docLinks (link_targetId lt))
                 \<noteq> None)
        \<longrightarrow> hazardFinding index docLinks risk = None)"
proof -
  have run: "validateHazardChains documents index docLinks ws gs =
     (ws @ map fst (List.map_filter (hazardFinding index docLinks) (docsOfType index ''risk'')),
      gs @ map snd (List.map_filter (hazardFinding index docLinks) (docsOfType index ''risk'')))"
    by (simp add: validateHazardChains_def foldl_hazardStep)
  have fields:
    "w_file (fst (hazardNoSituation h (link_targetId a))) = doc_filePath h
     \<and> w_rule (fst (hazardNoSituation h (link_targetId a))) = JStr ''traceability/hazard-chain''
     \<and> gap_documentId (snd (hazardNoSituation h (link_targetId a))) = link_targetId a
     \<and> gap_gapType (snd (hazardNoSituation h (link_targetId a))) = ''hazard_no_situation''
     \<and> w_file (fst (situationNoHarm s (link_targetId lt))) = doc_filePath s
     \<and> w_rule (fst (situationNoHarm s (link_targetId lt))) = JStr ''traceability/hazard-chain''
     \<and> gap_documentId (snd (situationNoHarm s (link_targetId lt))) = link_targetId lt
     \<and> gap_gapType (snd (situationNoHarm s (link_targetId lt))) = ''situation_no_harm''"
    by (simp add: hazardNoSituation_def situationNoHarm_def)
  show ?thesis
    using run fields
    by (auto simp: hazardFinding_def Let_def split: option.splits)
qed

text \<open>
  The theorem at one risk document and five states of the index and the recorded links:
  the hazard of its first \<^verbatim>\<open>analyzes\<close> link records no \<^verbatim>\<open>leads_to\<close> link (one finding
  for the file of the hazard); the hazard leads to a situation of the index with no
  \<^verbatim>\<open>results_in\<close> link (one finding for the file of the situation); no link is recorded
  for the risk document; the hazard is not in the index; the chain is complete (no
  finding in the last three).
\<close>

theorem hazard_chain_amended_witness:
  "hazardFinding
     \<lparr>byId = [''HAZ-1'' \<mapsto> plainDocument ''hazards/HAZ-1.md'' ''HAZ-1'' ''hazard'' []],
      byPath = Map.empty, byType = Map.empty\<rparr>
     [''RISK-1'' \<mapsto> [\<lparr>link_type = ''analyzes'', link_targetId = ''HAZ-1''\<rparr>]]
     (plainDocument ''risk/RISK-1.md'' ''RISK-1'' ''risk'' ''**Analyzes:** [HAZ-1]'')
   = Some (hazardNoSituation (plainDocument ''hazards/HAZ-1.md'' ''HAZ-1'' ''hazard'' []) ''HAZ-1'')
   \<and> hazardFinding
     \<lparr>byId = [''HAZ-1'' \<mapsto> plainDocument ''hazards/HAZ-1.md'' ''HAZ-1'' ''hazard''
                              ''**Leads to:** [HS-1]'',
              ''HS-1'' \<mapsto> plainDocument ''situations/HS-1.md'' ''HS-1'' ''hazardous_situation'' []],
      byPath = Map.empty, byType = Map.empty\<rparr>
     [''RISK-1'' \<mapsto> [\<lparr>link_type = ''analyzes'', link_targetId = ''HAZ-1''\<rparr>],
      ''HAZ-1'' \<mapsto> [\<lparr>link_type = ''leads_to'', link_targetId = ''HS-1''\<rparr>]]
     (plainDocument ''risk/RISK-1.md'' ''RISK-1'' ''risk'' ''**Analyzes:** [HAZ-1]'')
   = Some (situationNoHarm
             (plainDocument ''situations/HS-1.md'' ''HS-1'' ''hazardous_situation'' []) ''HS-1'')
   \<and> hazardFinding
     \<lparr>byId = [''HAZ-1'' \<mapsto> plainDocument ''hazards/HAZ-1.md'' ''HAZ-1'' ''hazard'' []],
      byPath = Map.empty, byType = Map.empty\<rparr>
     Map.empty
     (plainDocument ''risk/RISK-1.md'' ''RISK-1'' ''risk'' ''**Analyzes:** [HAZ-1]'')
   = None
   \<and> hazardFinding
     \<lparr>byId = Map.empty, byPath = Map.empty, byType = Map.empty\<rparr>
     [''RISK-1'' \<mapsto> [\<lparr>link_type = ''analyzes'', link_targetId = ''HAZ-1''\<rparr>]]
     (plainDocument ''risk/RISK-1.md'' ''RISK-1'' ''risk'' ''**Analyzes:** [HAZ-1]'')
   = None
   \<and> hazardFinding
     \<lparr>byId = [''HAZ-1'' \<mapsto> plainDocument ''hazards/HAZ-1.md'' ''HAZ-1'' ''hazard''
                              ''**Leads to:** [HS-1]'',
              ''HS-1'' \<mapsto> plainDocument ''situations/HS-1.md'' ''HS-1'' ''hazardous_situation'' []],
      byPath = Map.empty, byType = Map.empty\<rparr>
     [''RISK-1'' \<mapsto> [\<lparr>link_type = ''analyzes'', link_targetId = ''HAZ-1''\<rparr>],
      ''HAZ-1'' \<mapsto> [\<lparr>link_type = ''leads_to'', link_targetId = ''HS-1''\<rparr>],
      ''HS-1'' \<mapsto> [\<lparr>link_type = ''results_in'', link_targetId = ''HARM-1''\<rparr>]]
     (plainDocument ''risk/RISK-1.md'' ''RISK-1'' ''risk'' ''**Analyzes:** [HAZ-1]'')
   = None"
proof -
  let ?risk = "plainDocument ''risk/RISK-1.md'' ''RISK-1'' ''risk'' ''**Analyzes:** [HAZ-1]''"
  let ?a = "\<lparr>link_type = ''analyzes'', link_targetId = ''HAZ-1''\<rparr>"
  let ?lt = "\<lparr>link_type = ''leads_to'', link_targetId = ''HS-1''\<rparr>"
  let ?ri = "\<lparr>link_type = ''results_in'', link_targetId = ''HARM-1''\<rparr>"
  let ?h1 = "plainDocument ''hazards/HAZ-1.md'' ''HAZ-1'' ''hazard'' []"
  let ?h2 = "plainDocument ''hazards/HAZ-1.md'' ''HAZ-1'' ''hazard'' ''**Leads to:** [HS-1]''"
  let ?s = "plainDocument ''situations/HS-1.md'' ''HS-1'' ''hazardous_situation'' []"
  let ?i0 = "\<lparr>byId = Map.empty, byPath = Map.empty, byType = Map.empty\<rparr>"
  let ?i1 = "\<lparr>byId = [''HAZ-1'' \<mapsto> ?h1], byPath = Map.empty, byType = Map.empty\<rparr>"
  let ?i2 = "\<lparr>byId = [''HAZ-1'' \<mapsto> ?h2, ''HS-1'' \<mapsto> ?s], byPath = Map.empty,
              byType = Map.empty\<rparr>"
  let ?l1 = "[''RISK-1'' \<mapsto> [?a]]"
  let ?l2 = "[''RISK-1'' \<mapsto> [?a], ''HAZ-1'' \<mapsto> [?lt]]"
  let ?l3 = "[''RISK-1'' \<mapsto> [?a], ''HAZ-1'' \<mapsto> [?lt], ''HS-1'' \<mapsto> [?ri]]"
  have a1: "find (\<lambda>l. link_type l = ''analyzes'') (linksOf ?l1 (doc_id ?risk)) = Some ?a
            \<and> byId ?i1 (link_targetId ?a) = Some ?h1
            \<and> find (\<lambda>l. link_type l = ''leads_to'') (linksOf ?l1 (link_targetId ?a)) = None"
    by (simp add: linksOf_def plainDocument_def)
  have a2: "find (\<lambda>l. link_type l = ''analyzes'') (linksOf ?l2 (doc_id ?risk)) = Some ?a
            \<and> byId ?i2 (link_targetId ?a) = Some ?h2
            \<and> find (\<lambda>l. link_type l = ''leads_to'') (linksOf ?l2 (link_targetId ?a)) = Some ?lt
            \<and> byId ?i2 (link_targetId ?lt) = Some ?s
            \<and> find (\<lambda>l. link_type l = ''results_in'') (linksOf ?l2 (link_targetId ?lt)) = None"
    by (simp add: linksOf_def plainDocument_def)
  have a3: "find (\<lambda>l. link_type l = ''analyzes'') (linksOf Map.empty (doc_id ?risk)) = None"
    by (simp add: linksOf_def)
  have a4: "find (\<lambda>l. link_type l = ''analyzes'') (linksOf ?l1 (doc_id ?risk)) = Some ?a
            \<and> byId ?i0 (link_targetId ?a) = None"
    by (simp add: linksOf_def plainDocument_def)
  have a5: "find (\<lambda>l. link_type l = ''analyzes'') (linksOf ?l3 (doc_id ?risk)) = Some ?a
            \<and> byId ?i2 (link_targetId ?a) = Some ?h2
            \<and> find (\<lambda>l. link_type l = ''leads_to'') (linksOf ?l3 (link_targetId ?a)) = Some ?lt
            \<and> (byId ?i2 (link_targetId ?lt) = None
                \<or> find (\<lambda>l. link_type l = ''results_in'') (linksOf ?l3 (link_targetId ?lt))
                     \<noteq> None)"
    by (simp add: linksOf_def plainDocument_def)
  have f1: "hazardFinding ?i1 ?l1 ?risk = Some (hazardNoSituation ?h1 (link_targetId ?a))"
    using a1 hazard_chain_amended
      [where index = ?i1 and docLinks = ?l1 and risk = ?risk and a = ?a and h = ?h1]
    by blast
  have f2: "hazardFinding ?i2 ?l2 ?risk = Some (situationNoHarm ?s (link_targetId ?lt))"
    using a2 hazard_chain_amended
      [where index = ?i2 and docLinks = ?l2 and risk = ?risk and a = ?a and h = ?h2
         and lt = ?lt and s = ?s]
    by blast
  have f3: "hazardFinding ?i1 Map.empty ?risk = None"
    using a3 hazard_chain_amended
      [where index = ?i1 and docLinks = Map.empty and risk = ?risk]
    by blast
  have f4: "hazardFinding ?i0 ?l1 ?risk = None"
    using a4 hazard_chain_amended
      [where index = ?i0 and docLinks = ?l1 and risk = ?risk and a = ?a]
    by blast
  have f5: "hazardFinding ?i2 ?l3 ?risk = None"
    using a5 hazard_chain_amended
      [where index = ?i2 and docLinks = ?l3 and risk = ?risk and a = ?a and h = ?h2
         and lt = ?lt]
    by blast
  show ?thesis
    using f1 f2 f3 f4 f5 by simp
qed

text \<open>
  C4 as worded fails: a risk document with the links \<^verbatim>\<open>**Analyzes:** [HAZ-0]\<close> and
  \<^verbatim>\<open>**Analyzes:** [HAZ-1]\<close> has an \<^verbatim>\<open>analyzes\<close> link to the indexed hazard HAZ-1,
  which has no \<^verbatim>\<open>leads_to\<close> link; HAZ-0 is not in the index. Only the first
  \<^verbatim>\<open>analyzes\<close> link is followed, and the pass reports nothing.
\<close>

theorem first_analyzes_only_counterexample:
  "\<lparr>link_type = ''analyzes'', link_targetId = ''HAZ-1''\<rparr>
     \<in> set (extractLinks (plainDocument ''risk/RISK-1.md'' ''RISK-1'' ''risk''
               (''**Analyzes:** [HAZ-0]'' @ [CHR 0x0A] @ ''**Analyzes:** [HAZ-1]'')))
   \<and> map_option doc_filePath
        (byId (buildDocumentIndex
                 [plainDocument ''risk/RISK-1.md'' ''RISK-1'' ''risk''
                    (''**Analyzes:** [HAZ-0]'' @ [CHR 0x0A] @ ''**Analyzes:** [HAZ-1]''),
                  plainDocument ''hazards/HAZ-1.md'' ''HAZ-1'' ''hazard'' []])
           ''HAZ-1'')
      = Some ''hazards/HAZ-1.md''
   \<and> find (\<lambda>l. link_type l = ''leads_to'')
        (extractLinks (plainDocument ''hazards/HAZ-1.md'' ''HAZ-1'' ''hazard'' [])) = None
   \<and> validateTraceability
        [plainDocument ''risk/RISK-1.md'' ''RISK-1'' ''risk''
           (''**Analyzes:** [HAZ-0]'' @ [CHR 0x0A] @ ''**Analyzes:** [HAZ-1]''),
         plainDocument ''hazards/HAZ-1.md'' ''HAZ-1'' ''hazard'' []]
        (buildDocumentIndex
           [plainDocument ''risk/RISK-1.md'' ''RISK-1'' ''risk''
              (''**Analyzes:** [HAZ-0]'' @ [CHR 0x0A] @ ''**Analyzes:** [HAZ-1]''),
            plainDocument ''hazards/HAZ-1.md'' ''HAZ-1'' ''hazard'' []])
        \<lparr>cfg_type = device, cfg_chains = []\<rparr>
      = \<lparr>res_warnings = [], res_coverage = [], res_gaps = []\<rparr>"
  by code_simp

text \<open>
  C5. A chain with no source documents reports 100. With source documents the percentage
  is computed in double arithmetic, and an exact half can be lost on the way: for 23
  covered documents of 40 the quotient 0.575 and its product with 100 are rounded to the
  double just below 57.5, and \<^verbatim>\<open>Math.round\<close> gives 57, where rounding of the exact
  value 57.5 gives 58.
\<close>

theorem coveragePercent_tie_rounds_down:
  "coveragePercent 23 40 = 57
   \<and> mathRound (23 / 40 * 100) = 58
   \<and> coveragePercent coveredCount 0 = 100"
  by (simp add: coveragePercent_def) code_simp

section \<open>Properties of the risk matrix\<close>

lemma riskStep_skip: "extractRiskValues doc = None \<Longrightarrow> riskStep gridSize st doc = Inr st"
  by (simp add: riskStep_def)

lemma riskLoop_filter:
  "riskLoop gridSize st (filter (\<lambda>d. extractRiskValues d \<noteq> None) docs)
   = riskLoop gridSize st docs"
proof (induction docs arbitrary: st)
  case Nil
  show ?case by simp
next
  case (Cons d docs)
  show ?case
  proof (cases "extractRiskValues d")
    case None
    then show ?thesis using Cons.IH by (simp add: riskStep_skip)
  next
    case (Some v)
    then show ?thesis using Cons.IH by (simp split: sum.splits)
  qed
qed

lemma extractRiskValues_None_iff:
  "extractRiskValues doc = None \<longleftrightarrow>
     \<not> (fieldTruthy (doc_frontmatter doc) ''severity''
          \<and> fieldTruthy (doc_frontmatter doc) ''probability'')
     \<and> (searchRow [''Severity''] (doc_body doc) = None
          \<or> searchRow [''Probability''] (doc_body doc) = None)"
  by (auto simp: extractRiskValues_def Let_def split: option.splits)

lemma buildRiskMatrix_None_iff:
  "buildRiskMatrix index gridSize = Inr None \<longleftrightarrow> docsOfType index ''risk'' = []"
  by (auto simp: buildRiskMatrix_def Let_def split: sum.splits)

lemma docsOfType_Nil_iff:
  "docsOfType index t = [] \<longleftrightarrow> byType index t = None \<or> byType index t = Some []"
  by (auto simp: docsOfType_def split: option.splits)

text \<open>
  \<^verbatim>\<open>buildRiskMatrix\<close> returns \<^verbatim>\<open>null\<close> exactly when the index has no risk
  documents (no group, or an empty one). A risk document yields no values exactly when
  the frontmatter does not hold a truthy severity and a truthy probability and the body
  tables do not give both either; the loop then leaves every variable as it was, and
  taking such a document out of a risk group that stays non-empty does not change the
  result of \<^verbatim>\<open>buildRiskMatrix\<close>: no entry, no grid cell and no count comes from it.
\<close>

lemma buildRiskMatrix_null_and_skipped:
  "(buildRiskMatrix index gridSize = Inr None
      \<longleftrightarrow> byType index ''risk'' = None \<or> byType index ''risk'' = Some [])
   \<and> (extractRiskValues doc = None \<longleftrightarrow>
        \<not> (fieldTruthy (doc_frontmatter doc) ''severity''
             \<and> fieldTruthy (doc_frontmatter doc) ''probability'')
        \<and> (searchRow [''Severity''] (doc_body doc) = None
             \<or> searchRow [''Probability''] (doc_body doc) = None))
   \<and> (extractRiskValues doc = None \<longrightarrow> riskStep gridSize st doc = Inr st)
   \<and> (extractRiskValues doc = None \<and> pre @ post \<noteq> []
        \<and> byType index ''risk'' = Some (pre @ doc # post)
        \<and> byType index' ''risk'' = Some (pre @ post)
        \<longrightarrow> buildRiskMatrix index gridSize = buildRiskMatrix index' gridSize)"
proof (intro conjI impI)
  show "buildRiskMatrix index gridSize = Inr None
      \<longleftrightarrow> byType index ''risk'' = None \<or> byType index ''risk'' = Some []"
    by (simp add: buildRiskMatrix_None_iff docsOfType_Nil_iff)
  show "extractRiskValues doc = None \<longleftrightarrow>
        \<not> (fieldTruthy (doc_frontmatter doc) ''severity''
             \<and> fieldTruthy (doc_frontmatter doc) ''probability'')
        \<and> (searchRow [''Severity''] (doc_body doc) = None
             \<or> searchRow [''Probability''] (doc_body doc) = None)"
    by (rule extractRiskValues_None_iff)
next
  assume "extractRiskValues doc = None"
  then show "riskStep gridSize st doc = Inr st" by (rule riskStep_skip)
next
  assume a: "extractRiskValues doc = None \<and> pre @ post \<noteq> []
        \<and> byType index ''risk'' = Some (pre @ doc # post)
        \<and> byType index' ''risk'' = Some (pre @ post)"
  let ?keep = "\<lambda>d. extractRiskValues d \<noteq> None"
  have f: "filter ?keep (pre @ doc # post) = filter ?keep (pre @ post)"
    using a by simp
  have "riskLoop gridSize (initialState gridSize) (pre @ doc # post)
        = riskLoop gridSize (initialState gridSize) (pre @ post)"
    using riskLoop_filter [of gridSize "initialState gridSize" "pre @ doc # post"]
          riskLoop_filter [of gridSize "initialState gridSize" "pre @ post"] f
    by simp
  then show "buildRiskMatrix index gridSize = buildRiskMatrix index' gridSize"
    using a by (simp add: buildRiskMatrix_def docsOfType_def)
qed

text \<open>
  Two risk documents: one with the frontmatter values 4 and 3, and a draft with no values
  at all, which leaves the matrix of the first alone.
\<close>

lemma buildRiskMatrix_null_and_skipped_example:
  "extractRiskValues (riskDocument ''RISK-2'' Map.empty []) = None
   \<and> riskStep 5 (initialState 5) (riskDocument ''RISK-2'' Map.empty [])
       = Inr (initialState 5)
   \<and> buildRiskMatrix
        (buildDocumentIndex
           [riskDocument ''RISK-1''
              [''severity'' \<mapsto> FmVal True (Num 4), ''probability'' \<mapsto> FmVal True (Num 3)] [],
            riskDocument ''RISK-2'' Map.empty []]) 5
      = buildRiskMatrix
          (buildDocumentIndex
             [riskDocument ''RISK-1''
                [''severity'' \<mapsto> FmVal True (Num 4), ''probability'' \<mapsto> FmVal True (Num 3)]
                []]) 5"
proof -
  let ?d1 = "riskDocument ''RISK-1''
               [''severity'' \<mapsto> FmVal True (Num 4), ''probability'' \<mapsto> FmVal True (Num 3)] []"
  let ?d2 = "riskDocument ''RISK-2'' Map.empty []"
  have none: "extractRiskValues ?d2 = None"
    by (simp add: extractRiskValues_def riskDocument_def fieldTruthy_def matchRowAt_def)
  have ne: "[?d1] @ [] \<noteq> []"
    by simp
  have i1: "byType (buildDocumentIndex [?d1, ?d2]) ''risk'' = Some ([?d1] @ ?d2 # [])"
    by (simp add: buildDocumentIndex_def riskDocument_def)
  have i2: "byType (buildDocumentIndex [?d1]) ''risk'' = Some ([?d1] @ [])"
    by (simp add: buildDocumentIndex_def riskDocument_def)
  show ?thesis
    using none ne i1 i2
      buildRiskMatrix_null_and_skipped
        [of "buildDocumentIndex [?d1, ?d2]" 5 ?d2 "initialState 5" "[?d1]" "[]"
            "buildDocumentIndex [?d1]"]
    by simp
qed

lemma getAcceptability_whole:
  "getAcceptability (Num (of_int p)) (Num (of_int s)) =
     Inr (Some (if 1 \<le> p \<and> p \<le> 5 \<and> 1 \<le> s \<and> s \<le> 5
                then DEFAULT_ACCEPTABILITY ! nat (p - 1) ! nat (s - 1)
                else review_required))"
proof (cases "1 \<le> p \<and> p \<le> 5 \<and> 1 \<le> s \<and> s \<le> 5")
  case False
  then show ?thesis
    by (auto simp: getAcceptability_def jsGt_def)
next
  case True
  then have "p \<in> {1, 2, 3, 4, 5}" and "s \<in> {1, 2, 3, 4, 5}"
    by auto
  then show ?thesis
    by (auto simp: getAcceptability_def jsGt_def arrayGet_def arrayIndex_def
                   DEFAULT_ACCEPTABILITY_def)
qed

lemma sum_list_incr: "i < length xs \<Longrightarrow> sum_list (xs[i := xs ! i + n]) = sum_list xs + (n::nat)"
  by (induction xs arbitrary: i) (auto split: nat.splits)

lemma gridSum_update:
  "r < length grid \<Longrightarrow> gridSum (grid[r := row]) + sum_list (grid ! r) = gridSum grid + sum_list row"
  unfolding gridSum_def
  by (induction grid arbitrary: r) (auto split: nat.splits)

lemma increment_sum:
  assumes "increment grid i j = Inr g"
  shows "gridSum g \<le> gridSum grid + 1"
proof -
  from assms obtain r where r: "arrayIndex i = Some r" "r < length grid"
    by (auto simp: increment_def split: option.splits if_splits)
  show ?thesis
  proof (cases "\<exists>c. arrayIndex j = Some c \<and> c < length (grid ! r)")
    case True
    then obtain c where c: "arrayIndex j = Some c" "c < length (grid ! r)"
      by blast
    with assms r have g: "g = grid[r := (grid ! r)[c := (grid ! r) ! c + 1]]"
      by (simp add: increment_def)
    have "sum_list ((grid ! r)[c := (grid ! r) ! c + 1]) = sum_list (grid ! r) + 1"
      using c(2) by (rule sum_list_incr)
    then have "gridSum g + sum_list (grid ! r) = gridSum grid + (sum_list (grid ! r) + 1)"
      unfolding g using r(2) gridSum_update [of r grid "(grid ! r)[c := (grid ! r) ! c + 1]"]
      by simp
    then show ?thesis by simp
  next
    case False
    with assms r have "g = grid"
      by (auto simp: increment_def split: option.splits if_splits)
    then show ?thesis by simp
  qed
qed

lemma populate_sum: "populate n grid p s = Inr g \<Longrightarrow> gridSum g \<le> gridSum grid + 1"
  by (auto simp: populate_def dest: increment_sum split: if_splits)

lemma riskStep_Some:
  assumes "extractRiskValues doc = Some v"
  shows "riskStep n st doc =
     (case populate n (st_inherent st) (rv_probability v) (rv_severity v) of
        Inl e \<Rightarrow> Inl e
      | Inr inh \<Rightarrow>
          (case populate n (st_residual st) (residualProbabilityOf v) (residualSeverityOf v) of
             Inl e \<Rightarrow> Inl e
           | Inr res \<Rightarrow>
               (case getAcceptability (residualProbabilityOf v) (residualSeverityOf v) of
                  Inl e \<Rightarrow> Inl e
                | Inr a \<Rightarrow>
                    Inr \<lparr>st_inherent = inh, st_residual = res,
                         st_risks = st_risks st @ [entryOf doc v a],
                         st_acceptable = st_acceptable st
                           + (if a = Some acceptable then 1 else 0),
                         st_reviewRequired = st_reviewRequired st
                           + (if a = Some review_required then 1 else 0),
                         st_unacceptable = st_unacceptable st
                           + (if a = Some unacceptable then 1 else 0)\<rparr>)))"
  unfolding riskStep_def residualProbabilityOf_def residualSeverityOf_def entryOf_def Let_def
  by (simp only: assms option.case)

lemma riskStep_Inr:
  assumes "riskStep n st doc = Inr st'" and "extractRiskValues doc = Some v"
  obtains inh res a where
    "populate n (st_inherent st) (rv_probability v) (rv_severity v) = Inr inh"
    "populate n (st_residual st) (residualProbabilityOf v) (residualSeverityOf v) = Inr res"
    "getAcceptability (residualProbabilityOf v) (residualSeverityOf v) = Inr a"
    "st' = \<lparr>st_inherent = inh, st_residual = res,
            st_risks = st_risks st @ [entryOf doc v a],
            st_acceptable = st_acceptable st + (if a = Some acceptable then 1 else 0),
            st_reviewRequired = st_reviewRequired st
              + (if a = Some review_required then 1 else 0),
            st_unacceptable = st_unacceptable st
              + (if a = Some unacceptable then 1 else 0)\<rparr>"
  using assms(1) unfolding riskStep_Some [OF assms(2)]
  by (auto split: sum.splits)

lemma riskStep_invariant:
  assumes "riskStep n st doc = Inr st'" and "summaryInvariant st"
  shows "summaryInvariant st'"
proof (cases "extractRiskValues doc")
  case None
  with assms show ?thesis by (simp add: riskStep_def)
next
  case (Some v)
  from assms(1) Some obtain inh res a where
    inh: "populate n (st_inherent st) (rv_probability v) (rv_severity v) = Inr inh"
    and res: "populate n (st_residual st) (residualProbabilityOf v) (residualSeverityOf v)
                = Inr res"
    and st': "st' = \<lparr>st_inherent = inh, st_residual = res,
            st_risks = st_risks st @ [entryOf doc v a],
            st_acceptable = st_acceptable st + (if a = Some acceptable then 1 else 0),
            st_reviewRequired = st_reviewRequired st
              + (if a = Some review_required then 1 else 0),
            st_unacceptable = st_unacceptable st
              + (if a = Some unacceptable then 1 else 0)\<rparr>"
    by (rule riskStep_Inr)
  have e: "risk_acceptability (entryOf doc v a) = a"
    by (simp add: entryOf_def)
  show ?thesis
    using assms(2) populate_sum [OF inh] populate_sum [OF res]
    by (simp add: st' summaryInvariant_def tierCount_def e)
qed

lemma riskLoop_invariant:
  "riskLoop n st docs = Inr st' \<Longrightarrow> summaryInvariant st \<Longrightarrow> summaryInvariant st'"
proof (induction docs arbitrary: st)
  case Nil
  then show ?case by simp
next
  case (Cons d docs)
  then obtain st1 where s: "riskStep n st d = Inr st1" "riskLoop n st1 docs = Inr st'"
    by (auto split: sum.splits)
  then show ?case
    using Cons.IH riskStep_invariant Cons.prems(2) by blast
qed

lemma gridSum_createGrid: "gridSum (createGrid n) = 0"
  by (simp add: gridSum_def createGrid_def)

lemma initialState_invariant: "summaryInvariant (initialState n)"
  by (simp add: summaryInvariant_def initialState_def tierCount_def gridSum_createGrid)

lemma buildRiskMatrix_invariants:
  assumes "buildRiskMatrix index n = Inr (Some m)"
  shows "sum_total (rm_summary m) = length (rm_risks m)
    \<and> sum_acceptable (rm_summary m) = tierCount acceptable (rm_risks m)
    \<and> sum_reviewRequired (rm_summary m) = tierCount review_required (rm_risks m)
    \<and> sum_unacceptable (rm_summary m) = tierCount unacceptable (rm_risks m)
    \<and> gridSum (rm_inherent m) \<le> sum_total (rm_summary m)
    \<and> gridSum (rm_residual m) \<le> sum_total (rm_summary m)
    \<and> sum_acceptable (rm_summary m) + sum_reviewRequired (rm_summary m)
        + sum_unacceptable (rm_summary m)
      = length (filter (\<lambda>e. risk_acceptability e \<noteq> None) (rm_risks m))"
proof -
  from assms obtain st where st: "riskLoop n (initialState n) (docsOfType index ''risk'') = Inr st"
    and m: "m = toMatrix st"
    by (auto simp: buildRiskMatrix_def Let_def split: if_splits sum.splits)
  have inv: "summaryInvariant st"
    using st initialState_invariant by (rule riskLoop_invariant)
  have split3: "tierCount acceptable rs + tierCount review_required rs + tierCount unacceptable rs
      = length (filter (\<lambda>e. risk_acceptability e \<noteq> None) rs)" for rs
  proof (induction rs)
    case Nil
    show ?case by (simp add: tierCount_def)
  next
    case (Cons e rs)
    show ?case
    proof (cases "risk_acceptability e")
      case None
      with Cons show ?thesis by (simp add: tierCount_def)
    next
      case (Some t)
      with Cons show ?thesis by (cases t) (simp_all add: tierCount_def)
    qed
  qed
  show ?thesis
    using inv split3 [of "st_risks st"] by (simp add: m toMatrix_def summaryInvariant_def)
qed

lemma arrayIndex_whole: "arrayIndex (Num (of_int k)) = (if 0 \<le> k then Some (nat k) else None)"
  by (simp add: arrayIndex_def)

lemma inGrid_whole:
  "inGrid n (Num (of_int p)) (Num (of_int s)) \<longleftrightarrow> 1 \<le> p \<and> p \<le> int n \<and> 1 \<le> s \<and> s \<le> int n"
proof -
  have "(rat_of_int p \<le> rat_of_nat n) = (p \<le> int n)" for p
    by (metis of_int_le_iff of_int_of_nat_eq)
  then show ?thesis
    by (simp add: inGrid_def jsGe_def)
qed

lemma populate_whole:
  assumes "squareGrid n grid"
  shows "populate n grid (Num (of_int p)) (Num (of_int s)) =
     Inr (if 1 \<le> p \<and> p \<le> int n \<and> 1 \<le> s \<and> s \<le> int n
          then grid[nat (p - 1) := (grid ! nat (p - 1))
                      [nat (s - 1) := grid ! nat (p - 1) ! nat (s - 1) + 1]]
          else grid)"
proof -
  define ok where "ok \<longleftrightarrow> 1 \<le> p \<and> p \<le> int n \<and> 1 \<le> s \<and> s \<le> int n"
  have g: "inGrid n (Num (of_int p)) (Num (of_int s)) = ok"
    by (simp add: inGrid_whole ok_def)
  show ?thesis
  proof (cases ok)
    case False
    then show ?thesis
      unfolding ok_def [symmetric] by (simp add: populate_def g)
  next
    case True
    then have b: "1 \<le> p" "p \<le> int n" "1 \<le> s" "s \<le> int n"
      by (simp_all add: ok_def)
    then have r: "nat (p - 1) < length grid"
      using assms by (auto simp: squareGrid_def)
    then have "length (grid ! nat (p - 1)) = n"
      using assms by (auto simp: squareGrid_def)
    then have c: "nat (s - 1) < length (grid ! nat (p - 1))"
      using b by auto
    have i: "arrayIndex (Num (of_int p - 1)) = Some (nat (p - 1))"
            "arrayIndex (Num (of_int s - 1)) = Some (nat (s - 1))"
      using b arrayIndex_whole [of "p - 1"] arrayIndex_whole [of "s - 1"] by simp_all
    show ?thesis
      unfolding ok_def [symmetric] using True r c
      by (simp add: populate_def g increment_def i)
  qed
qed

lemma populate_square:
  "populate n grid p s = Inr g \<Longrightarrow> squareGrid n grid \<Longrightarrow> squareGrid n g"
  by (auto simp: populate_def increment_def squareGrid_def
           dest!: set_update_subset_insert [THEN subsetD]
           split: if_splits option.splits)

lemma tierOfResidual_entryOf:
  "tierOfResidual (entryOf doc v a)
   \<longleftrightarrow> getAcceptability (residualProbabilityOf v) (residualSeverityOf v) = Inr a"
  by (simp add: tierOfResidual_def entryOf_def residualProbabilityOf_def residualSeverityOf_def
           split: option.splits)

lemma riskStep_entries:
  assumes "riskStep n st doc = Inr st'" and "\<forall>e \<in> set (st_risks st). tierOfResidual e"
  shows "\<forall>e \<in> set (st_risks st'). tierOfResidual e"
proof (cases "extractRiskValues doc")
  case None
  with assms show ?thesis by (simp add: riskStep_def)
next
  case (Some v)
  from assms(1) Some obtain inh res a where
    a: "getAcceptability (residualProbabilityOf v) (residualSeverityOf v) = Inr a"
    and st': "st' = \<lparr>st_inherent = inh, st_residual = res,
            st_risks = st_risks st @ [entryOf doc v a],
            st_acceptable = st_acceptable st + (if a = Some acceptable then 1 else 0),
            st_reviewRequired = st_reviewRequired st
              + (if a = Some review_required then 1 else 0),
            st_unacceptable = st_unacceptable st
              + (if a = Some unacceptable then 1 else 0)\<rparr>"
    by (rule riskStep_Inr)
  show ?thesis
    using assms(2) a by (simp add: st' tierOfResidual_entryOf)
qed

lemma riskLoop_entries:
  "riskLoop n st docs = Inr st' \<Longrightarrow> \<forall>e \<in> set (st_risks st). tierOfResidual e
   \<Longrightarrow> \<forall>e \<in> set (st_risks st'). tierOfResidual e"
proof (induction docs arbitrary: st)
  case Nil
  then show ?case by simp
next
  case (Cons d docs)
  then obtain st1 where s: "riskStep n st d = Inr st1" "riskLoop n st1 docs = Inr st'"
    by (auto split: sum.splits)
  then show ?case
    using Cons.IH riskStep_entries Cons.prems(2) by blast
qed

lemma riskStep_whole:
  assumes "wholeValues doc"
    and "squareGrid n (st_inherent st)" and "squareGrid n (st_residual st)"
    and "\<forall>e \<in> set (st_risks st). risk_acceptability e \<noteq> None"
  shows "\<exists>st'. riskStep n st doc = Inr st'
     \<and> squareGrid n (st_inherent st') \<and> squareGrid n (st_residual st')
     \<and> (\<forall>e \<in> set (st_risks st'). risk_acceptability e \<noteq> None)"
proof (cases "extractRiskValues doc")
  case None
  with assms show ?thesis by (simp add: riskStep_def)
next
  case (Some v)
  from assms(1) Some obtain p s p' s' where
    w: "rv_probability v = Num (of_int p)" "rv_severity v = Num (of_int s)"
       "residualProbabilityOf v = Num (of_int p')" "residualSeverityOf v = Num (of_int s')"
    by (auto simp: wholeValues_def isWhole_def residualProbabilityOf_def residualSeverityOf_def
             split: option.splits)
  obtain inh where inh: "populate n (st_inherent st) (rv_probability v) (rv_severity v) = Inr inh"
    using populate_whole [OF assms(2), of p s] w by simp
  obtain res where res: "populate n (st_residual st) (residualProbabilityOf v)
                           (residualSeverityOf v) = Inr res"
    using populate_whole [OF assms(3), of p' s'] w by simp
  obtain t where a: "getAcceptability (residualProbabilityOf v) (residualSeverityOf v)
                       = Inr (Some t)"
    using getAcceptability_whole [of p' s'] w by simp
  have sq: "squareGrid n inh" "squareGrid n res"
    using populate_square [OF inh assms(2)] populate_square [OF res assms(3)] by simp_all
  have e: "risk_acceptability (entryOf doc v (Some t)) = Some t"
    by (simp add: entryOf_def)
  show ?thesis
    using assms(4) sq e by (simp add: riskStep_Some [OF Some] inh res a)
qed

lemma riskLoop_whole:
  "\<forall>d \<in> set docs. wholeValues d
   \<Longrightarrow> squareGrid n (st_inherent st) \<Longrightarrow> squareGrid n (st_residual st)
   \<Longrightarrow> \<forall>e \<in> set (st_risks st). risk_acceptability e \<noteq> None
   \<Longrightarrow> \<exists>st'. riskLoop n st docs = Inr st'
         \<and> (\<forall>e \<in> set (st_risks st'). risk_acceptability e \<noteq> None)"
proof (induction docs arbitrary: st)
  case Nil
  then show ?case by simp
next
  case (Cons d docs)
  from Cons.prems obtain st1 where s: "riskStep n st d = Inr st1"
    "squareGrid n (st_inherent st1)" "squareGrid n (st_residual st1)"
    "\<forall>e \<in> set (st_risks st1). risk_acceptability e \<noteq> None"
    using riskStep_whole [of d n st] by auto
  from Cons.IH [OF _ s(2,3,4)] Cons.prems(1) obtain st' where
    "riskLoop n st1 docs = Inr st'" "\<forall>e \<in> set (st_risks st'). risk_acceptability e \<noteq> None"
    by auto
  then show ?case
    using s(1) by simp
qed

lemma squareGrid_createGrid: "squareGrid n (createGrid n)"
  by (simp add: squareGrid_def createGrid_def)

text \<open>
  What C1, C7 and C10 say holds for whole-number values: when every risk document that
  yields values yields whole numbers, \<open>buildRiskMatrix\<close> raises no exception, every entry
  has the tier of its residual pair, and the total is the sum of the three counts.
\<close>

lemma buildRiskMatrix_whole:
  assumes "docsOfType index ''risk'' \<noteq> []"
    and "\<forall>d \<in> set (docsOfType index ''risk''). wholeValues d"
  shows "\<exists>m. buildRiskMatrix index n = Inr (Some m)
     \<and> (\<forall>e \<in> set (rm_risks m). tierOfResidual e \<and> risk_acceptability e \<noteq> None)
     \<and> sum_total (rm_summary m)
         = sum_acceptable (rm_summary m) + sum_reviewRequired (rm_summary m)
           + sum_unacceptable (rm_summary m)"
proof -
  obtain st where st: "riskLoop n (initialState n) (docsOfType index ''risk'') = Inr st"
    and tiers: "\<forall>e \<in> set (st_risks st). risk_acceptability e \<noteq> None"
    using riskLoop_whole [OF assms(2), of n "initialState n"]
    by (auto simp: initialState_def squareGrid_createGrid)
  have m: "buildRiskMatrix index n = Inr (Some (toMatrix st))"
    using assms(1) st by (simp add: buildRiskMatrix_def)
  have ent: "\<forall>e \<in> set (st_risks st). tierOfResidual e"
    using st by (rule riskLoop_entries) (simp add: initialState_def)
  note inv = buildRiskMatrix_invariants [OF m]
  have r: "rm_risks (toMatrix st) = st_risks st"
    by (simp add: toMatrix_def)
  have f: "filter (\<lambda>e. risk_acceptability e \<noteq> None) (rm_risks (toMatrix st))
      = rm_risks (toMatrix st)"
    unfolding r using tiers by (intro filter_True) simp
  from inv have t: "sum_total (rm_summary (toMatrix st)) = length (rm_risks (toMatrix st))"
    and c: "sum_acceptable (rm_summary (toMatrix st))
            + sum_reviewRequired (rm_summary (toMatrix st))
            + sum_unacceptable (rm_summary (toMatrix st))
          = length (filter (\<lambda>e. risk_acceptability e \<noteq> None) (rm_risks (toMatrix st)))"
    by blast+
  have "sum_total (rm_summary (toMatrix st))
         = sum_acceptable (rm_summary (toMatrix st)) + sum_reviewRequired (rm_summary (toMatrix st))
           + sum_unacceptable (rm_summary (toMatrix st))"
    unfolding t c f ..
  then show ?thesis
    using m ent tiers r by simp
qed

text \<open>
  C1. For whole-number coordinates the tier is the table entry inside 1..5 and
  \<open>review_required\<close> outside (\<open>getAcceptability_whole\<close>; severity 4 with probability 1
  is \<open>acceptable\<close>). The guard of \<^verbatim>\<open>getAcceptability\<close> compares with \<^verbatim>\<open><\<close> and
  \<^verbatim>\<open>>\<close>, which are false for NaN. A risk document whose frontmatter says
  \<^verbatim>\<open>severity: high\<close>, \<^verbatim>\<open>probability: 3\<close> has the severity \<^verbatim>\<open>Number("high")\<close>, NaN:
  no part of the guard fires, the read \<^verbatim>\<open>DEFAULT_ACCEPTABILITY[2][NaN]\<close> is
  \<^verbatim>\<open>undefined\<close>, and the entry is recorded with no tier instead of
  \<open>review_required\<close>.
\<close>

theorem getAcceptability_NaN_severity:
  "getAcceptability (Num 1) (Num 4) = Inr (Some acceptable)
   \<and> getAcceptability (Num 3) NaN = Inr None
   \<and> buildRiskMatrix
        (buildDocumentIndex
           [riskDocument ''RISK-1''
              [''severity'' \<mapsto> FmVal True NaN, ''probability'' \<mapsto> FmVal True (Num 3)] []]) 5
      = Inr (Some
          \<lparr>rm_inherent = createGrid 5, rm_residual = createGrid 5,
           rm_acceptability = DEFAULT_ACCEPTABILITY,
           rm_risks =
             [\<lparr>risk_id = ''RISK-1'', risk_title = ''Untitled'', risk_severity = NaN,
               risk_probability = Num 3, risk_residualSeverity = None,
               risk_residualProbability = None, risk_mitigates = [],
               risk_acceptability = None\<rparr>],
           rm_summary =
             \<lparr>sum_total = 1, sum_acceptable = 0, sum_reviewRequired = 0,
              sum_unacceptable = 0\<rparr>\<rparr>)"
  by code_simp

text \<open>
  C6. The claim sets two results against each other: no matrix for an index without risk
  documents, a matrix otherwise. \<^verbatim>\<open>null\<close> is returned exactly when there is no risk
  document and a document without values contributes nothing
  (\<open>buildRiskMatrix_null_and_skipped\<close>), and for whole-number values a matrix is returned
  (\<open>buildRiskMatrix_whole\<close>). But with the frontmatter \<^verbatim>\<open>severity: 4\<close>,
  \<^verbatim>\<open>probability: likely\<close> the index has a risk document with values and no matrix is
  returned: the probability is \<^verbatim>\<open>Number("likely")\<close>, NaN, which passes the guard of
  \<^verbatim>\<open>getAcceptability\<close>; the row read \<^verbatim>\<open>DEFAULT_ACCEPTABILITY[NaN]\<close> is \<^verbatim>\<open>undefined\<close>
  and the column access on it throws. The same document with the probability 3 gives a
  matrix.
\<close>

theorem buildRiskMatrix_throws_with_risk_documents:
  "length (docsOfType
             (buildDocumentIndex
                [riskDocument ''RISK-1''
                   [''severity'' \<mapsto> FmVal True (Num 4),
                    ''probability'' \<mapsto> FmVal True NaN] []]) ''risk'') = 1
   \<and> map_option (\<lambda>v. (rv_severity v, rv_probability v))
        (extractRiskValues
           (riskDocument ''RISK-1''
              [''severity'' \<mapsto> FmVal True (Num 4),
               ''probability'' \<mapsto> FmVal True NaN] []))
      = Some (Num 4, NaN)
   \<and> getAcceptability NaN (Num 4) = Inl TypeError
   \<and> buildRiskMatrix
        (buildDocumentIndex
           [riskDocument ''RISK-1''
              [''severity'' \<mapsto> FmVal True (Num 4),
               ''probability'' \<mapsto> FmVal True NaN] []]) 5
      = Inl TypeError
   \<and> map_sum id (map_option rm_summary)
        (buildRiskMatrix
           (buildDocumentIndex
              [riskDocument ''RISK-1''
                 [''severity'' \<mapsto> FmVal True (Num 4),
                  ''probability'' \<mapsto> FmVal True (Num 3)] []]) 5)
      = Inr (Some \<lparr>sum_total = 1, sum_acceptable = 0, sum_reviewRequired = 1,
                    sum_unacceptable = 0\<rparr>)"
  by code_simp

text \<open>
  C7. The guard before a grid increment asks for a number between 1 and the grid size,
  not for a whole number. With the frontmatter \<^verbatim>\<open>severity: 3\<close>,
  \<^verbatim>\<open>probability: 2.5\<close> the guard holds, the row read \<^verbatim>\<open>inherent[1.5]\<close> is
  \<^verbatim>\<open>undefined\<close>, and the column access on it throws: the access is not inside the grid
  and no entry is recorded. For whole-number values the cell is raised exactly inside
  the grid, nothing is thrown and the entry is recorded (\<open>populate_whole\<close>,
  \<open>buildRiskMatrix_whole\<close>).
\<close>

theorem populate_fraction_throws:
  "inGrid 5 (Num (5 / 2)) (Num 3)
   \<and> populate 5 (createGrid 5) (Num (5 / 2)) (Num 3) = Inl TypeError
   \<and> buildRiskMatrix
        (buildDocumentIndex
           [riskDocument ''RISK-1''
              [''severity'' \<mapsto> FmVal True (Num 3),
               ''probability'' \<mapsto> FmVal True (Num (5 / 2))] []]) 5
      = Inl TypeError"
  by code_simp

text \<open>
  C10. The tier counts are raised in a \<^verbatim>\<open>switch\<close> over the three tiers. With the
  frontmatter \<^verbatim>\<open>severity: 2.5\<close>, \<^verbatim>\<open>probability: 2\<close> the tier read is
  \<^verbatim>\<open>DEFAULT_ACCEPTABILITY[1][1.5]\<close>, \<^verbatim>\<open>undefined\<close>: the entry is in the risks list and
  in the total, and in none of the three counts. The other parts of C10 hold of every
  returned matrix (\<open>buildRiskMatrix_invariants\<close>), and this one for whole-number values
  (\<open>buildRiskMatrix_whole\<close>).
\<close>

theorem summary_misses_entry_without_tier:
  "map_sum id (map_option (\<lambda>m. (map risk_acceptability (rm_risks m), rm_summary m)))
     (buildRiskMatrix
        (buildDocumentIndex
           [riskDocument ''RISK-1''
              [''severity'' \<mapsto> FmVal True (Num (5 / 2)),
               ''probability'' \<mapsto> FmVal True (Num 2)] []]) 5)
   = Inr (Some ([None],
                \<lparr>sum_total = 1, sum_acceptable = 0, sum_reviewRequired = 0,
                 sum_unacceptable = 0\<rparr>))"
  by code_simp

end
